theory Spec2Isabelle
  imports Main "HOL-Library.Sublist"
begin

section \<open>Multiplexing gateway (internal/multiplexer/server.go)\<close>

text \<open>
  A \<open>core.Service\<close> is an interface value. The model keeps what the gateway reads from it:
  the identity of the adapter object behind the interface (\<open>ident\<close>), and the results of its
  \<open>GetType()\<close> and \<open>GetEndpoint()\<close> methods, which are fixed per adapter.
\<close>

type_synonym ServiceType = string

record Service =
  ident :: nat
  GetType :: ServiceType
  GetEndpoint :: string

text \<open>
  The handlers that \<open>Start\<close> installs in the \<open>http.ServeMux\<close>: a streamable handler whose
  closure returns \<open>service.GetServer()\<close> of the adapter it captured, and \<open>s.handleRoot\<close>.
\<close>

datatype handler = ServiceHandler Service | RootHandler

text \<open>
  A pattern of the mux that consists of a path only: its segments, and whether it ends in a
  slash and so stands for the whole subtree below them.
\<close>

type_synonym pattern = "string list \<times> bool"

text \<open>
  The \<open>Server\<close> struct: the routing table \<open>services\<close> and the \<open>http.Server\<close> with its mux,
  \<open>None\<close> until \<open>Start\<close> has built it. The port and the address cache do not take part in
  routing and are left out.
\<close>

record Server =
  services :: "string \<rightharpoonup> Service"
  server :: "(pattern \<rightharpoonup> handler) option"

definition rootPath :: string where
  "rootPath = ''/''"

definition NewServer :: Server where
  "NewServer = \<lparr>services = Map.empty, server = None\<rparr>"

text \<open>\<open>AddService\<close>: \<open>s.services[endpoint] = service\<close> under the write lock.\<close>

definition AddService :: "Service \<Rightarrow> Server \<Rightarrow> Server" where
  "AddService service s = s\<lparr>services := (services s)(GetEndpoint service \<mapsto> service)\<rparr>"

text \<open>
  \<open>RemoveService\<close>: when the endpoint is present, \<open>Close()\<close> is called on the adapter found
  there and the key is deleted. The second component of the result lists the adapters whose
  \<open>Close()\<close> was invoked by the call, in order.
\<close>

definition RemoveService :: "string \<Rightarrow> Server \<Rightarrow> Server \<times> Service list" where
  "RemoveService endpoint s =
     (case services s endpoint of
        Some service \<Rightarrow> (s\<lparr>services := (services s)(endpoint := None)\<rparr>, [service])
      | None \<Rightarrow> (s, []))"

subsection \<open>Paths and patterns of the mux\<close>

text \<open>
  \<open>url.PathUnescape\<close> as the mux uses it: every \<open>%\<close> must be followed by two hexadecimal
  digits, and then each such triple stands for one byte; a segment with a malformed escape
  is taken as it is.
\<close>

definition ishex :: "char \<Rightarrow> bool" where
  "ishex c =
     (let n = (of_char c :: nat) in (48 \<le> n \<and> n \<le> 57) \<or> (97 \<le> n \<and> n \<le> 102) \<or> (65 \<le> n \<and> n \<le> 70))"

definition unhex :: "char \<Rightarrow> nat" where
  "unhex c =
     (let n = (of_char c :: nat) in
      if 48 \<le> n \<and> n \<le> 57 then n - 48 else if 97 \<le> n \<and> n \<le> 102 then n - 87 else n - 55)"

fun escapes_ok :: "string \<Rightarrow> bool" where
  "escapes_ok [] = True"
| "escapes_ok [c] = (c \<noteq> CHR ''%'')"
| "escapes_ok [c, a] = (c \<noteq> CHR ''%'' \<and> a \<noteq> CHR ''%'')"
| "escapes_ok (c # a # b # cs) =
     (if c = CHR ''%'' then ishex a \<and> ishex b \<and> escapes_ok cs else escapes_ok (a # b # cs))"

fun unescape :: "string \<Rightarrow> string" where
  "unescape (c # a # b # cs) =
     (if c = CHR ''%'' then char_of (16 * unhex a + unhex b) # unescape cs
      else c # unescape (a # b # cs))"
| "unescape cs = cs"

definition pathUnescape :: "string \<Rightarrow> string" where
  "pathUnescape s = (if escapes_ok s then unescape s else s)"

text \<open>The pieces of a string between its slashes: \<open>/a/b/\<close> gives the four pieces \<open>[[], a, b, []]\<close>.\<close>

fun split_slash :: "string \<Rightarrow> string list" where
  "split_slash [] = [[]]"
| "split_slash (c # cs) =
     (if c = CHR ''/'' then [] # split_slash cs
      else (case split_slash cs of x # xs \<Rightarrow> (c # x) # xs | [] \<Rightarrow> [[c]]))"

text \<open>
  The segments of a string that starts with a slash, unescaped one by one, and whether the
  string ends in a slash. The mux reads a pattern made of a path this way when the pattern
  is registered, and the cleaned path of a request this way when it walks its routing tree.
\<close>

definition segments_of :: "string \<Rightarrow> pattern" where
  "segments_of p =
     (let segs = tl (split_slash p) in
      if segs \<noteq> [] \<and> last segs = [] then (map pathUnescape (butlast segs), True)
      else (map pathUnescape segs, False))"

text \<open>
  \<open>cleanPath\<close> of \<open>net/http\<close>, with \<open>path.Clean\<close> on a rooted path: empty and \<open>.\<close> segments are
  dropped, \<open>..\<close> removes the segment before it, and a trailing slash is kept.
\<close>

fun clean_segments :: "string list \<Rightarrow> string list \<Rightarrow> string list" where
  "clean_segments [] out = out"
| "clean_segments (seg # segs) out =
     (if seg = [] \<or> seg = ''.'' then clean_segments segs out
      else if seg = ''..'' then clean_segments segs (butlast out)
      else clean_segments segs (out @ [seg]))"

definition path_Clean :: "string \<Rightarrow> string" where
  "path_Clean p =
     (case clean_segments (split_slash p) [] of
        [] \<Rightarrow> ''/''
      | segs \<Rightarrow> concat (map (\<lambda>seg. CHR ''/'' # seg) segs))"

definition cleanPath :: "string \<Rightarrow> string" where
  "cleanPath p =
     (if p = [] then ''/''
      else
        (let p1 = (if hd p \<noteq> CHR ''/'' then CHR ''/'' # p else p); np = path_Clean p1 in
         if last p1 = CHR ''/'' \<and> np \<noteq> ''/'' then np @ ''/'' else np))"

text \<open>
  An endpoint that the mux reads as a pattern made of a path only: it starts with a slash
  and has no blank (which would split off a method) and no brace (which would open a
  wildcard).
\<close>

definition literal_pattern :: "string \<Rightarrow> bool" where
  "literal_pattern k =
     (k \<noteq> [] \<and> hd k = CHR ''/'' \<and> CHR '' '' \<notin> set k \<and> CHR 0x09 \<notin> set k \<and> CHR ''{'' \<notin> set k)"

subsection \<open>Start and the dispatch of a request\<close>

text \<open>
  \<open>Start\<close> copies the routing table under the read lock, registers one handler per entry of
  the copy, then registers \<open>handleRoot\<close> at \<open>rootPath\<close> and serves. Go leaves the order of
  \<open>range servicesCopy\<close> open, so the order in which the loop meets the endpoints is the
  argument \<open>keys\<close>. Each closure captures the \<open>service\<close> of its own iteration: the module uses
  the MCP SDK, which needs Go 1.23, where a loop variable is new in every iteration.

  \<open>mux.Handle\<close> panics on the empty pattern and on a pattern that is already registered; the
  latter happens for \<open>rootPath\<close> when an adapter is mounted there. For an endpoint that is not
  a pattern made of a path only, Go either panics (no slash, a malformed wildcard) or routes
  by method, host or wildcard; the model covers neither and \<open>Start\<close> stops with \<open>NotLiteral\<close>.
  The result \<open>Inr\<close> is the state while \<open>ListenAndServe\<close> is serving.
\<close>

datatype start_error = MuxPanic string | NotLiteral string

fun register_all ::
  "(string \<rightharpoonup> Service) \<Rightarrow> string list \<Rightarrow> (pattern \<rightharpoonup> handler) \<Rightarrow> start_error + (pattern \<rightharpoonup> handler)" where
  "register_all servicesCopy [] mux = Inr mux"
| "register_all servicesCopy (endpoint # rest) mux =
     (case servicesCopy endpoint of
        None \<Rightarrow> register_all servicesCopy rest mux
      | Some service \<Rightarrow>
          if endpoint = [] then Inl (MuxPanic endpoint)
          else if \<not> literal_pattern endpoint then Inl (NotLiteral endpoint)
          else if mux (segments_of endpoint) \<noteq> None then Inl (MuxPanic endpoint)
          else register_all servicesCopy rest (mux(segments_of endpoint \<mapsto> ServiceHandler service)))"

definition Start :: "string list \<Rightarrow> Server \<Rightarrow> start_error + Server" where
  "Start keys s =
     (let servicesCopy = services s in
      case register_all servicesCopy keys Map.empty of
        Inl e \<Rightarrow> Inl e
      | Inr mux \<Rightarrow>
          if mux (segments_of rootPath) \<noteq> None then Inl (MuxPanic rootPath)
          else Inr (s\<lparr>server := Some (mux(segments_of rootPath \<mapsto> RootHandler))\<rparr>))"

text \<open>
  The walk through the routing tree for patterns made of paths. A pattern without a trailing
  slash matches the path with exactly its segments. A pattern with a trailing slash matches
  every path below it, and the path of its own segments only when that path ends in a
  slash. The pattern with the most segments wins.
\<close>

definition subtree_candidates :: "string list \<Rightarrow> bool \<Rightarrow> string list list" where
  "subtree_candidates ps trailing =
     (if trailing then rev (prefixes ps) else rev (butlast (prefixes ps)))"

definition tree_match :: "(pattern \<rightharpoonup> handler) \<Rightarrow> pattern \<Rightarrow> (pattern \<times> handler) option" where
  "tree_match mux p =
     (case (if snd p then None else mux (fst p, False)) of
        Some h \<Rightarrow> Some ((fst p, False), h)
      | None \<Rightarrow>
          (case List.map_filter (\<lambda>pre. map_option (Pair (pre, True)) (mux (pre, True)))
                  (subtree_candidates (fst p) (snd p)) of
             x # _ \<Rightarrow> Some x
           | [] \<Rightarrow> None))"

text \<open>
  \<open>ServeMux.findHandler\<close> for a request with the escaped path \<open>path\<close> and a method other than
  CONNECT. The path is cleaned and matched. When it has no trailing slash and no pattern
  with exactly its segments, but the pattern for its subtree exists, the request is
  redirected to the path with the slash added. Otherwise a path that cleaning changed is
  redirected to the cleaned path. Otherwise the matched handler runs, or there is none.
\<close>

datatype mux_result = Found handler | RedirectTo string | NoMatch

definition mux_match :: "(pattern \<rightharpoonup> handler) \<Rightarrow> string \<Rightarrow> mux_result" where
  "mux_match mux path =
     (let cp = cleanPath path; p = segments_of cp; n = tree_match mux p in
      if \<not> snd p \<and> mux (fst p, False) = None \<and> mux (fst p, True) \<noteq> None
      then RedirectTo (cp @ ''/'')
      else if cp \<noteq> path then RedirectTo cp
      else (case n of Some (_, h) \<Rightarrow> Found h | None \<Rightarrow> NoMatch))"

text \<open>
  What serving one request does: \<open>ToService a\<close> when the request reaches the streamable
  handler that captured adapter \<open>a\<close>; \<open>StatusPage t\<close> when \<open>handleRoot\<close> renders the page from
  the routing table \<open>t\<close> it reads through \<open>GetServiceInfo\<close> at request time; \<open>NotFound\<close> for
  \<open>http.NotFound\<close>; \<open>NotServing\<close> before \<open>Start\<close>. A template that fails to render
  (status 500) is left out.
\<close>

datatype http_result =
  ToService Service
  | StatusPage "string \<rightharpoonup> Service"
  | Redirect string
  | NotFound
  | NotServing

definition handleRoot :: "Server \<Rightarrow> string \<Rightarrow> http_result" where
  "handleRoot s path = (if path \<noteq> rootPath then NotFound else StatusPage (services s))"

definition ServeHTTP :: "Server \<Rightarrow> string \<Rightarrow> http_result" where
  "ServeHTTP s path =
     (case server s of
        None \<Rightarrow> NotServing
      | Some mux \<Rightarrow>
          (case mux_match mux path of
             Found (ServiceHandler service) \<Rightarrow> ToService service
           | Found RootHandler \<Rightarrow> handleRoot s path
           | RedirectTo p \<Rightarrow> Redirect p
           | NoMatch \<Rightarrow> NotFound))"





section \<open>Service registry (package core)\<close>

text \<open>
  \<open>ServiceConfig\<close> is an interface; the registry reads only \<open>GetType()\<close> of it. The fields
  are prefixed since \<open>Service\<close> has methods of the same names.
\<close>

record ServiceConfig =
  cfgGetType :: ServiceType
  cfgGetEndpoint :: string
  cfgIsEnabled :: bool

datatype core_error =
  UnsupportedServiceError ServiceType
  | ServiceCreationError ServiceType string
  | OtherError string

definition NewUnsupportedServiceError :: "ServiceType \<Rightarrow> core_error" where
  "NewUnsupportedServiceError serviceType = UnsupportedServiceError serviceType"

text \<open>
  A \<open>ServiceFactory\<close> takes the configuration and the timeout (a \<open>time.Duration\<close>, in
  nanoseconds) and returns Go's pair \<open>(Service, error)\<close>. The registrations of the repository
  pass the two \<open>CreateService\<close> functions of the service packages; a nil function value is not
  a factory and is not modelled.
\<close>

type_synonym ServiceFactory = "ServiceConfig \<Rightarrow> int \<Rightarrow> Service option \<times> core_error option"

text \<open>
  The package-level variables \<open>serviceFactories\<close>, \<open>supportedTypesCache\<close> and \<open>cacheValid\<close>.
  A slice is the address of its backing array (\<open>None\<close> is the nil slice); the arrays live in a
  heap, a list indexed by address, so that two slices alias exactly when their addresses are
  equal.
\<close>

record Registry =
  serviceFactories :: "ServiceType \<rightharpoonup> ServiceFactory"
  supportedTypesCache :: "nat option"
  cacheValid :: bool

type_synonym slice_heap = "ServiceType list list"

definition initRegistry :: Registry where
  "initRegistry = \<lparr>serviceFactories = Map.empty, supportedTypesCache = None, cacheValid = False\<rparr>"

definition slice_at :: "slice_heap \<Rightarrow> nat \<Rightarrow> ServiceType list" where
  "slice_at h a = (if a < length h then h ! a else [])"

text \<open>\<open>make\<close> followed by filling the new array with \<open>xs\<close>: the new array gets the next address.\<close>

definition make_slice :: "ServiceType list \<Rightarrow> slice_heap \<Rightarrow> nat \<times> slice_heap" where
  "make_slice xs h = (length h, h @ [xs])"

text \<open>A caller overwriting the elements of a slice it holds.\<close>

definition write_slice :: "nat \<Rightarrow> ServiceType list \<Rightarrow> slice_heap \<Rightarrow> slice_heap" where
  "write_slice a xs h = h[a := xs]"

definition RegisterServiceFactory :: "ServiceType \<Rightarrow> ServiceFactory \<Rightarrow> Registry \<Rightarrow> Registry" where
  "RegisterServiceFactory serviceType factory r =
     r\<lparr>serviceFactories := (serviceFactories r)(serviceType \<mapsto> factory), cacheValid := False\<rparr>"

text \<open>
  \<open>CreateService\<close> returns what the source returns, together with the list of factory
  invocations the call made: which function was called, and with which arguments.
\<close>

type_synonym factory_call = "ServiceFactory \<times> ServiceConfig \<times> int"

definition CreateService ::
  "ServiceConfig \<Rightarrow> int \<Rightarrow> Registry \<Rightarrow> (Service option \<times> core_error option) \<times> factory_call list" where
  "CreateService config timeout r =
     (case serviceFactories r (cfgGetType config) of
        None \<Rightarrow> ((None, Some (NewUnsupportedServiceError (cfgGetType config))), [])
      | Some factory \<Rightarrow> (factory config timeout, [(factory, config, timeout)]))"

text \<open>
  \<open>GetSupportedServiceTypes\<close>. Go leaves the order of \<open>range serviceFactories\<close> open, so the
  order in which the loop meets the keys is the argument \<open>keys\<close>. With a valid cache the
  result is a new array holding a copy of the cached one. Otherwise \<open>types\<close> is a new array
  filled by the loop, the cache becomes another new array holding a copy of it, and \<open>types\<close>
  is returned. The result is the returned slice, the registry and the heap.
\<close>

definition GetSupportedServiceTypes ::
  "ServiceType list \<Rightarrow> Registry \<Rightarrow> slice_heap \<Rightarrow> nat \<times> Registry \<times> slice_heap" where
  "GetSupportedServiceTypes keys r h =
     (case (cacheValid r, supportedTypesCache r) of
        (True, Some cache) \<Rightarrow>
          (let (result, h1) = make_slice (slice_at h cache) h in (result, r, h1))
      | _ \<Rightarrow>
          (let (types, h1) = make_slice keys h;
               (cache, h2) = make_slice (slice_at h1 types) h1
           in (types, r\<lparr>supportedTypesCache := Some cache, cacheValid := True\<rparr>, h2)))"

text \<open>The methods of the legacy \<open>Registry\<close> struct call the package-level functions.\<close>

definition Register :: "ServiceType \<Rightarrow> ServiceFactory \<Rightarrow> Registry \<Rightarrow> Registry" where
  "Register serviceType factory r = RegisterServiceFactory serviceType factory r"

definition Create ::
  "ServiceConfig \<Rightarrow> int \<Rightarrow> Registry \<Rightarrow> (Service option \<times> core_error option) \<times> factory_call list" where
  "Create config timeout r = CreateService config timeout r"

definition GetSupportedTypes ::
  "ServiceType list \<Rightarrow> Registry \<Rightarrow> slice_heap \<Rightarrow> nat \<times> Registry \<times> slice_heap" where
  "GetSupportedTypes keys r h = GetSupportedServiceTypes keys r h"

text \<open>A heap in which the cache slice, when not nil, points to an allocated array.\<close>

definition registry_heap_ok :: "Registry \<Rightarrow> slice_heap \<Rightarrow> bool" where
  "registry_heap_ok r h = (case supportedTypesCache r of None \<Rightarrow> True | Some a \<Rightarrow> a < length h)"

section \<open>Tool-call envelopes (internal/common/response.go)\<close>

datatype Content = TextContent string

record CallToolResult =
  IsError :: bool
  Content :: "Content list"

definition errJSONMarshalFailed :: string where
  "errJSONMarshalFailed =
     [CHR 0xE7, CHR 0xBB, CHR 0x93, CHR 0xE6, CHR 0x9E, CHR 0x9C, CHR 0xE8, CHR 0xBD, CHR 0xAC,
      CHR 0xE6, CHR 0x8D, CHR 0xA2, CHR 0xE5, CHR 0xA4, CHR 0xB1, CHR 0xE8, CHR 0xB4, CHR 0xA5,
      CHR 0x3A, CHR 0x20]"

text \<open>
  \<open>json.Marshal\<close> is the argument \<open>Marshal\<close>: \<open>Inr\<close> the JSON text, \<open>Inl\<close> the text of the
  error. Each constructor returns the pair of the envelope and the Go error (\<open>None\<close> is nil).
  The format \<open>errJSONMarshalFailed\<close> ends in \<open>%v\<close>, which prints the error's text.
\<close>

definition CreateSuccessResponse ::
  "('a \<Rightarrow> string + string) \<Rightarrow> 'a \<Rightarrow> CallToolResult \<times> string option" where
  "CreateSuccessResponse Marshal data =
     (case Marshal data of
        Inl err \<Rightarrow> (\<lparr>IsError = True, Content = [TextContent (errJSONMarshalFailed @ err)]\<rparr>, None)
      | Inr jsonData \<Rightarrow> (\<lparr>IsError = False, Content = [TextContent jsonData]\<rparr>, None))"

text \<open>\<open>fmt.Sprintf\<close> is the argument \<open>Sprintf\<close>.\<close>

definition CreateErrorResponse ::
  "(string \<Rightarrow> 'b list \<Rightarrow> string) \<Rightarrow> string \<Rightarrow> 'b list \<Rightarrow> CallToolResult \<times> string option" where
  "CreateErrorResponse Sprintf format args =
     (\<lparr>IsError = True, Content = [TextContent (Sprintf format args)]\<rparr>, None)"

definition CreateJSONResponse ::
  "('a \<Rightarrow> string + string) \<Rightarrow> 'a \<Rightarrow> CallToolResult \<times> string option" where
  "CreateJSONResponse Marshal data = CreateSuccessResponse Marshal data"

text \<open>
  The two kinds of envelope: a success envelope carries the payload's JSON text and has
  \<open>IsError\<close> unset, an error envelope carries a message and has \<open>IsError\<close> set.
\<close>

definition single_text :: "CallToolResult \<Rightarrow> bool" where
  "single_text r = (case Content r of [TextContent t] \<Rightarrow> True | _ \<Rightarrow> False)"

definition success_envelope :: "CallToolResult \<Rightarrow> bool" where
  "success_envelope r = (\<not> IsError r \<and> single_text r)"

definition error_envelope :: "CallToolResult \<Rightarrow> bool" where
  "error_envelope r = (IsError r \<and> single_text r)"


section \<open>Authenticated session client (package superset)\<close>

subsection \<open>HTTP, clock and library calls\<close>

text \<open>
  Requests as the client builds them and responses as it reads them: the status code, the
  \<open>Location\<close> header, the bytes \<open>io.ReadAll\<close> returns for the body and whether it reports an
  error. A request body is kept as the data that is encoded into it.
\<close>

datatype json =
  JNull
  | JBool bool
  | JInt int
  | JReal string
  | JString string
  | JArray "json list"
  | JObject "(string \<times> json) list"

datatype http_method = MethodGet | MethodPost

datatype payload = NoBody | FormBody "(string \<times> string) list" | JSONBody "(string \<times> json) list"

record request =
  Method :: http_method
  URL :: string
  Header :: "(string \<times> string) list"
  Payload :: payload

record response =
  StatusCode :: nat
  Location :: string
  Body :: string
  BodyErr :: bool

text \<open>
  The world outside the client. \<open>clock\<close> is the monotonic reading of \<open>time.Now()\<close> in
  nanoseconds and \<open>ticks\<close> the time that passes before each later reading. \<open>replies\<close> holds
  what the backend answers to the coming requests on the wire, one reply per request
  (\<open>Inl\<close> a transport error). \<open>sent\<close> records the requests the client has passed to
  \<open>httpClient.Do\<close>, one per call; the further requests \<open>Do\<close> makes itself while it follows
  redirects are not recorded. \<open>url_ok\<close> tells which URLs parse: those for which
  \<open>http.NewRequestWithContext\<close> succeeds and the \<open>Location\<close> values \<open>Do\<close> can follow.
  \<open>json_of\<close> gives the JSON value a byte string denotes, \<open>None\<close> when \<open>encoding/json\<close> rejects
  its syntax.
\<close>

record world =
  clock :: nat
  ticks :: "nat list"
  replies :: "(string + response) list"
  sent :: "request list"
  url_ok :: "string \<Rightarrow> bool"
  json_of :: "string \<Rightarrow> json option"

definition TimeNow :: "world \<Rightarrow> nat \<times> world" where
  "TimeNow w =
     (case ticks w of
        [] \<Rightarrow> (clock w, w)
      | d # ds \<Rightarrow> (clock w + d, w\<lparr>clock := clock w + d, ticks := ds\<rparr>))"

definition NewRequestWithContext ::
  "http_method \<Rightarrow> string \<Rightarrow> payload \<Rightarrow> world \<Rightarrow> request option" where
  "NewRequestWithContext m u b w =
     (if url_ok w u then Some \<lparr>Method = m, URL = u, Header = [], Payload = b\<rparr> else None)"

definition HeaderSet :: "string \<Rightarrow> string \<Rightarrow> request \<Rightarrow> request" where
  "HeaderSet k v req = req\<lparr>Header := filter (\<lambda>kv. fst kv \<noteq> k) (Header req) @ [(k, v)]\<rparr>"

text \<open>
  \<open>httpClient.Do\<close>. The client that \<open>NewClient\<close> builds sets no \<open>CheckRedirect\<close>, so \<open>Do\<close>
  follows redirects itself: a reply with status 301, 302, 303, 307 or 308 and a \<open>Location\<close>
  is not returned; the next request goes out and its reply is looked at in the same way.
  \<open>Do\<close> gives up with an error when the \<open>Location\<close> does not parse and after ten requests.
  A redirect without \<open>Location\<close> is returned as it is. The requests of the client are a GET
  without body and POSTs whose body can be read again, for which every one of these status
  codes is followed. \<open>via\<close> counts the requests already made for this call.
\<close>

definition is_redirect :: "nat \<Rightarrow> bool" where
  "is_redirect code = (code = 301 \<or> code = 302 \<or> code = 303 \<or> code = 307 \<or> code = 308)"

fun follow ::
  "(string \<Rightarrow> bool) \<Rightarrow> nat \<Rightarrow> (string + response) list \<Rightarrow> (string + response) \<times> (string + response) list" where
  "follow ok via [] = (Inl ''no reply'', [])"
| "follow ok via (Inl err # rs) = (Inl err, rs)"
| "follow ok via (Inr resp # rs) =
     (if is_redirect (StatusCode resp) \<and> Location resp \<noteq> [] then
        (if \<not> ok (Location resp) then (Inl ''failed to parse Location header'', rs)
         else if 10 \<le> Suc via then (Inl ''stopped after 10 redirects'', rs)
         else follow ok (Suc via) rs)
      else (Inr resp, rs))"

definition Do :: "request \<Rightarrow> world \<Rightarrow> (string + response) \<times> world" where
  "Do req w =
     (case follow (url_ok w) 0 (replies w) of
        (r, rest) \<Rightarrow> (r, w\<lparr>replies := rest, sent := sent w @ [req]\<rparr>))"

definition Contains :: "string \<Rightarrow> string \<Rightarrow> bool" where
  "Contains s substr = sublist substr s"

subsection \<open>Constants and data\<close>

definition loginEndpoint :: string where "loginEndpoint = ''/login/''"
definition databaseEndpoint :: string where "databaseEndpoint = ''/api/v1/database/''"
definition sqlExecuteEndpoint :: string where "sqlExecuteEndpoint = ''/api/v1/sqllab/execute/''"
definition contentTypeJSON :: string where "contentTypeJSON = ''application/json''"
definition contentTypeForm :: string where "contentTypeForm = ''application/x-www-form-urlencoded''"
definition headerAccept :: string where "headerAccept = ''Accept''"
definition headerCSRF :: string where "headerCSRF = ''X-CSRFToken''"
definition headerReferer :: string where "headerReferer = ''Referer''"

definition csrfTokenCacheDuration :: nat where
  "csrfTokenCacheDuration = 5 * 60 * 1000000000"

record Database =
  ID :: int
  DatabaseName :: string
  Backend :: string
  SQLAlchemyURI :: string
  CreatedOn :: string
  ChangedOn :: string

record SQLResult =
  Columns :: "string list"
  Data :: "json list list"
  Query :: string
  Status :: string

record csrfTokenCache =
  token :: string
  expiresAt :: nat

record Client =
  baseURL :: string
  username :: string
  password :: string
  loggedIn :: bool
  csrfCache :: csrfTokenCache
  sqlLabURL :: string

text \<open>
  The errors of the client, one constructor per \<open>fmt.Errorf\<close> of the source; a constructor
  with an argument wraps the cause or carries the values formatted into the message.
\<close>

datatype client_error =
  ErrCreateRequest
  | ErrFetchLoginPage string
  | ErrReadBody
  | ErrNoCSRFToken
  | ErrGetCSRFToken client_error
  | ErrSendRequest string
  | ErrBadCredentials
  | ErrLoginFailed
  | ErrLoginStatus nat
  | ErrLogin client_error
  | ErrGetDatabases string
  | ErrExecuteSQL string
  | ErrAPIStatus nat string
  | ErrParse string

text \<open>\<open>NewClient\<close>; the zero \<open>time.Time\<close> of the empty cache is the reading 0.\<close>

definition NewClient :: "string \<Rightarrow> string \<Rightarrow> string \<Rightarrow> Client" where
  "NewClient b u p =
     \<lparr>baseURL = b, username = u, password = p, loggedIn = False,
      csrfCache = \<lparr>token = [], expiresAt = 0\<rparr>, sqlLabURL = b @ ''/superset/sqllab''\<rparr>"

subsection \<open>The token pattern\<close>

text \<open>
  \<open>csrfTokenRegex.FindStringSubmatch\<close> for the pattern
  \<^verbatim>\<open>name="csrf_token"[^>]*value="([^"]*)"\<close>: the leftmost match, and at one start the
  match a backtracking matcher finds first, both stars being greedy. The result is the empty
  list when nothing matches, otherwise the matched text and the group.
\<close>

definition quote :: char where
  "quote = CHR 0x22"

definition name_attr :: string where
  \<open>name_attr = ''name="csrf_token"''\<close>

definition value_open :: string where
  \<open>value_open = ''value="''\<close>

definition match_value :: "string \<Rightarrow> (string \<times> string) option" where
  "match_value s =
     (if prefix value_open s then
        (let r = drop (length value_open) s; g = takeWhile (\<lambda>c. c \<noteq> quote) r in
         if length g < length r then Some (value_open @ g @ [quote], g) else None)
      else None)"

fun match_attrs :: "nat \<Rightarrow> string \<Rightarrow> (string \<times> string) option" where
  "match_attrs 0 s = match_value s"
| "match_attrs (Suc k) s =
     (case match_value (drop (Suc k) s) of
        Some (m, g) \<Rightarrow> Some (take (Suc k) s @ m, g)
      | None \<Rightarrow> match_attrs k s)"

definition match_here :: "string \<Rightarrow> string list" where
  "match_here s =
     (if prefix name_attr s then
        (let r = drop (length name_attr) s in
         case match_attrs (length (takeWhile (\<lambda>c. c \<noteq> CHR ''>'') r)) r of
           Some (m, g) \<Rightarrow> [name_attr @ m, g]
         | None \<Rightarrow> [])
      else [])"

fun FindStringSubmatch :: "string \<Rightarrow> string list" where
  "FindStringSubmatch [] = match_here []"
| "FindStringSubmatch (c # cs) =
     (case match_here (c # cs) of [] \<Rightarrow> FindStringSubmatch cs | ms \<Rightarrow> ms)"


subsection \<open>Token cache and login\<close>

text \<open>
  The test \<^verbatim>\<open>c.csrfCache.token != "" && time.Now().Before(c.csrfCache.expiresAt)\<close>;
  the clock is read only when the token is not empty.
\<close>

definition cache_valid :: "Client \<Rightarrow> world \<Rightarrow> bool \<times> world" where
  "cache_valid c w =
     (if token (csrfCache c) \<noteq> [] then
        (case TimeNow w of (t, w1) \<Rightarrow> (t < expiresAt (csrfCache c), w1))
      else (False, w))"

text \<open>
  \<open>getCSRFToken\<close>: the check under the read lock, the same check again under the write lock,
  then the fetch of the login page. The result is the returned pair (\<open>Inl\<close> the error), the
  client and the world.
\<close>

definition getCSRFToken :: "Client \<Rightarrow> world \<Rightarrow> (client_error + string) \<times> Client \<times> world" where
  "getCSRFToken c w =
     (case cache_valid c w of
        (True, w1) \<Rightarrow> (Inr (token (csrfCache c)), c, w1)
      | (False, w1) \<Rightarrow>
          (case cache_valid c w1 of
             (True, w2) \<Rightarrow> (Inr (token (csrfCache c)), c, w2)
           | (False, w2) \<Rightarrow>
               (case NewRequestWithContext MethodGet (baseURL c @ loginEndpoint) NoBody w2 of
                  None \<Rightarrow> (Inl ErrCreateRequest, c, w2)
                | Some req \<Rightarrow>
                    (case Do req w2 of
                       (Inl err, w3) \<Rightarrow> (Inl (ErrFetchLoginPage err), c, w3)
                     | (Inr resp, w3) \<Rightarrow>
                         if BodyErr resp then (Inl ErrReadBody, c, w3)
                         else
                           (let matches = FindStringSubmatch (Body resp) in
                            if length matches < 2 then (Inl ErrNoCSRFToken, c, w3)
                            else
                              (case TimeNow w3 of
                                 (t, w4) \<Rightarrow>
                                   (Inr (matches ! 1),
                                    c\<lparr>csrfCache :=
                                        \<lparr>token = matches ! 1,
                                         expiresAt = t + csrfTokenCacheDuration\<rparr>\<rparr>,
                                    w4)))))))"

text \<open>\<open>getCSRFTokenForLogin\<close> does not read or write the client.\<close>

definition getCSRFTokenForLogin :: "Client \<Rightarrow> world \<Rightarrow> (client_error + string) \<times> world" where
  "getCSRFTokenForLogin c w =
     (case NewRequestWithContext MethodGet (baseURL c @ loginEndpoint) NoBody w of
        None \<Rightarrow> (Inl ErrCreateRequest, w)
      | Some req \<Rightarrow>
          (case Do req w of
             (Inl err, w1) \<Rightarrow> (Inl (ErrFetchLoginPage err), w1)
           | (Inr resp, w1) \<Rightarrow>
               if BodyErr resp then (Inl ErrReadBody, w1)
               else
                 (let matches = FindStringSubmatch (Body resp) in
                  if length matches < 2 then (Inl ErrNoCSRFToken, w1)
                  else (Inr (matches ! 1), w1))))"

definition isSuccessfulRedirect :: "string \<Rightarrow> bool" where
  "isSuccessfulRedirect location =
     (Contains location ''/superset/welcome'' \<or> location = ''/'' \<or> Contains location ''/superset'')"

definition isLoginError :: "string \<Rightarrow> bool" where
  "isLoginError body =
     (Contains body ''Invalid login'' \<or> Contains body ''Invalid username or password''
      \<or> Contains body ''Authentication failed'')"

definition isLoginSuccess :: "string \<Rightarrow> bool" where
  "isLoginSuccess body = (Contains body ''superset'' \<and> Contains body ''dashboard'')"

text \<open>
  \<open>Login\<close>. The result is the returned error (\<open>None\<close> is nil), the client and the world. In
  the branch for status 200 the source drops the error of \<open>io.ReadAll\<close> and uses the bytes
  read.
\<close>

definition Login :: "Client \<Rightarrow> world \<Rightarrow> client_error option \<times> Client \<times> world" where
  "Login c w =
     (if loggedIn c then (None, c, w)
      else
        (case getCSRFTokenForLogin c w of
           (Inl err, w1) \<Rightarrow> (Some (ErrGetCSRFToken err), c, w1)
         | (Inr csrfToken, w1) \<Rightarrow>
             (case NewRequestWithContext MethodPost (baseURL c @ loginEndpoint)
                     (FormBody [(''username'', username c), (''password'', password c),
                                (''csrf_token'', csrfToken)]) w1 of
                None \<Rightarrow> (Some ErrCreateRequest, c, w1)
              | Some req0 \<Rightarrow>
                  (let req = HeaderSet headerReferer (baseURL c @ loginEndpoint)
                               (HeaderSet ''Content-Type'' contentTypeForm req0) in
                   case Do req w1 of
                     (Inl err, w2) \<Rightarrow> (Some (ErrSendRequest err), c, w2)
                   | (Inr resp, w2) \<Rightarrow>
                       if (StatusCode resp = 302 \<or> StatusCode resp = 303)
                          \<and> isSuccessfulRedirect (Location resp)
                       then (None, c\<lparr>loggedIn := True\<rparr>, w2)
                       else if StatusCode resp = 200 then
                         (if isLoginError (Body resp) then (Some ErrBadCredentials, c, w2)
                          else if isLoginSuccess (Body resp) then (None, c\<lparr>loggedIn := True\<rparr>, w2)
                          else (Some ErrLoginFailed, c, w2))
                       else (Some (ErrLoginStatus (StatusCode resp)), c, w2)))))"

definition ensureLoggedIn :: "Client \<Rightarrow> world \<Rightarrow> client_error option \<times> Client \<times> world" where
  "ensureLoggedIn c w = (if loggedIn c then (None, c, w) else Login c w)"

text \<open>
  A response to the login request that counts as a success: a redirect to a location that
  \<open>isSuccessfulRedirect\<close> accepts, or a 200 page with the markers of \<open>isLoginSuccess\<close>.
\<close>

definition login_success :: "response \<Rightarrow> bool" where
  "login_success resp =
     (((StatusCode resp = 302 \<or> StatusCode resp = 303) \<and> isSuccessfulRedirect (Location resp))
      \<or> (StatusCode resp = 200 \<and> isLoginSuccess (Body resp)))"

subsection \<open>Decoding JSON into the client's structs\<close>

text \<open>
  \<open>json.Unmarshal\<close> on a value the syntax check accepted. A member of an object goes to the
  field whose name equals its key after case folding; other members are skipped. \<open>foldName\<close> maps
  ASCII letters to upper case and the long s and the Kelvin sign to \<open>S\<close> and \<open>K\<close>; no other
  rune folds to an ASCII letter, so the remaining bytes are kept as they are. \<open>null\<close>
  leaves an integer, a string or a struct as it is and makes a slice or a map nil. A value
  of the wrong kind is an \<open>UnmarshalTypeError\<close>, here \<open>None\<close>. A member that occurs twice is
  decoded twice, the later value replacing the earlier one. Go's \<open>int\<close> has 64 bits.
\<close>

definition to_upper :: "char \<Rightarrow> char" where
  "to_upper c =
     (let n = (of_char c :: nat) in if 97 \<le> n \<and> n \<le> 122 then char_of (n - 32) else c)"

fun foldName :: "string \<Rightarrow> string" where
  "foldName [] = []"
| "foldName [c] = [to_upper c]"
| "foldName [c, d] =
     (if c = CHR 0xC5 \<and> d = CHR 0xBF then ''S'' else to_upper c # foldName [d])"
| "foldName (c # d # e # cs) =
     (if c = CHR 0xC5 \<and> d = CHR 0xBF then CHR ''S'' # foldName (e # cs)
      else if c = CHR 0xE2 \<and> d = CHR 0x84 \<and> e = CHR 0xAA then CHR ''K'' # foldName cs
      else to_upper c # foldName (d # e # cs))"

definition dec_int :: "json \<Rightarrow> int \<Rightarrow> int option" where
  "dec_int j old =
     (case j of
        JNull \<Rightarrow> Some old
      | JInt n \<Rightarrow> if - (2 ^ 63) \<le> n \<and> n < 2 ^ 63 then Some n else None
      | _ \<Rightarrow> None)"

definition dec_string :: "json \<Rightarrow> string \<Rightarrow> string option" where
  "dec_string j old = (case j of JNull \<Rightarrow> Some old | JString s \<Rightarrow> Some s | _ \<Rightarrow> None)"

fun assign_members ::
  "(string \<Rightarrow> json \<Rightarrow> 'a \<Rightarrow> 'a option) \<Rightarrow> (string \<times> json) list \<Rightarrow> 'a \<Rightarrow> 'a option" where
  "assign_members f [] x = Some x"
| "assign_members f ((k, v) # ms) x =
     (case f k v x of None \<Rightarrow> None | Some y \<Rightarrow> assign_members f ms y)"

definition dec_struct :: "(string \<Rightarrow> json \<Rightarrow> 'a \<Rightarrow> 'a option) \<Rightarrow> json \<Rightarrow> 'a \<Rightarrow> 'a option" where
  "dec_struct f j x =
     (case j of JNull \<Rightarrow> Some x | JObject ms \<Rightarrow> assign_members f ms x | _ \<Rightarrow> None)"

definition dec_slice :: "(json \<Rightarrow> 'a option) \<Rightarrow> json \<Rightarrow> 'a list option" where
  "dec_slice elem j =
     (case j of JNull \<Rightarrow> Some [] | JArray xs \<Rightarrow> those (map elem xs) | _ \<Rightarrow> None)"

definition Unmarshal :: "world \<Rightarrow> string \<Rightarrow> (json \<Rightarrow> 'a option) \<Rightarrow> 'a option" where
  "Unmarshal w body dec = (case json_of w body of None \<Rightarrow> None | Some j \<Rightarrow> dec j)"

definition zeroDatabase :: Database where
  "zeroDatabase =
     \<lparr>ID = 0, DatabaseName = [], Backend = [], SQLAlchemyURI = [], CreatedOn = [], ChangedOn = []\<rparr>"

definition Database_field :: "string \<Rightarrow> json \<Rightarrow> Database \<Rightarrow> Database option" where
  "Database_field k v d =
     (let n = foldName k in
      if n = ''ID'' then map_option (\<lambda>x. d\<lparr>ID := x\<rparr>) (dec_int v (ID d))
      else if n = ''DATABASE_NAME'' then
        map_option (\<lambda>x. d\<lparr>DatabaseName := x\<rparr>) (dec_string v (DatabaseName d))
      else if n = ''BACKEND'' then map_option (\<lambda>x. d\<lparr>Backend := x\<rparr>) (dec_string v (Backend d))
      else if n = ''SQLALCHEMY_URI'' then
        map_option (\<lambda>x. d\<lparr>SQLAlchemyURI := x\<rparr>) (dec_string v (SQLAlchemyURI d))
      else if n = ''CREATED_ON'' then
        map_option (\<lambda>x. d\<lparr>CreatedOn := x\<rparr>) (dec_string v (CreatedOn d))
      else if n = ''CHANGED_ON'' then
        map_option (\<lambda>x. d\<lparr>ChangedOn := x\<rparr>) (dec_string v (ChangedOn d))
      else Some d)"

definition dec_Database :: "json \<Rightarrow> Database option" where
  "dec_Database j = dec_struct Database_field j zeroDatabase"

text \<open>The struct with the single field \<open>Result\<close>, tagged \<open>result\<close>, kept as that field.\<close>

definition Result_field :: "string \<Rightarrow> json \<Rightarrow> Database list \<Rightarrow> Database list option" where
  "Result_field k v res = (if foldName k = ''RESULT'' then dec_slice dec_Database v else Some res)"

text \<open>The anonymous struct \<open>supersetResponse\<close> and its column struct.\<close>

record column =
  ColumnName :: string
  Name :: string
  Type :: string

record supersetResponse =
  respQueryID :: int
  respStatus :: string
  respData :: "(string \<rightharpoonup> json) list"
  respColumns :: "column list"
  respQuerySQL :: string

definition column_field :: "string \<Rightarrow> json \<Rightarrow> column \<Rightarrow> column option" where
  "column_field k v c =
     (let n = foldName k in
      if n = ''COLUMN_NAME'' then map_option (\<lambda>x. c\<lparr>ColumnName := x\<rparr>) (dec_string v (ColumnName c))
      else if n = ''NAME'' then map_option (\<lambda>x. c\<lparr>Name := x\<rparr>) (dec_string v (Name c))
      else if n = ''TYPE'' then map_option (\<lambda>x. c\<lparr>Type := x\<rparr>) (dec_string v (Type c))
      else Some c)"

definition dec_column :: "json \<Rightarrow> column option" where
  "dec_column j = dec_struct column_field j \<lparr>ColumnName = [], Name = [], Type = []\<rparr>"

text \<open>
  A row is a \<open>map[string]any\<close>; of a key given twice the later value stays. A cell keeps
  the JSON value it was decoded from. Go rejects a number outside the range of \<open>float64\<close> in
  a cell; the model accepts it, so it accepts every reply Go accepts.
\<close>

definition dec_row :: "json \<Rightarrow> (string \<rightharpoonup> json) option" where
  "dec_row j =
     (case j of JNull \<Rightarrow> Some Map.empty | JObject ms \<Rightarrow> Some (map_of (rev ms)) | _ \<Rightarrow> None)"

definition query_field :: "string \<Rightarrow> json \<Rightarrow> string \<Rightarrow> string option" where
  "query_field k v q = (if foldName k = ''SQL'' then dec_string v q else Some q)"

definition supersetResponse_field ::
  "string \<Rightarrow> json \<Rightarrow> supersetResponse \<Rightarrow> supersetResponse option" where
  "supersetResponse_field k v r =
     (let n = foldName k in
      if n = ''QUERY_ID'' then map_option (\<lambda>x. r\<lparr>respQueryID := x\<rparr>) (dec_int v (respQueryID r))
      else if n = ''STATUS'' then map_option (\<lambda>x. r\<lparr>respStatus := x\<rparr>) (dec_string v (respStatus r))
      else if n = ''DATA'' then map_option (\<lambda>x. r\<lparr>respData := x\<rparr>) (dec_slice dec_row v)
      else if n = ''COLUMNS'' then map_option (\<lambda>x. r\<lparr>respColumns := x\<rparr>) (dec_slice dec_column v)
      else if n = ''QUERY'' then
        map_option (\<lambda>x. r\<lparr>respQuerySQL := x\<rparr>) (dec_struct query_field v (respQuerySQL r))
      else Some r)"

definition dec_supersetResponse :: "json \<Rightarrow> supersetResponse option" where
  "dec_supersetResponse j =
     dec_struct supersetResponse_field j
       \<lparr>respQueryID = 0, respStatus = [], respData = [], respColumns = [], respQuerySQL = []\<rparr>"


subsection \<open>Listing databases and running SQL\<close>

text \<open>
  \<open>GetDatabases\<close>: login, token, the GET of the database endpoint, then the decoding in two
  steps: into the struct with the field \<open>Result\<close> first, and into a slice of \<open>Database\<close> when
  that returns an error.
\<close>

definition GetDatabases ::
  "Client \<Rightarrow> world \<Rightarrow> (client_error + Database list) \<times> Client \<times> world" where
  "GetDatabases c w =
     (case ensureLoggedIn c w of
        (Some err, c1, w1) \<Rightarrow> (Inl (ErrLogin err), c1, w1)
      | (None, c1, w1) \<Rightarrow>
          (case getCSRFToken c1 w1 of
             (Inl err, c2, w2) \<Rightarrow> (Inl (ErrGetCSRFToken err), c2, w2)
           | (Inr csrfToken, c2, w2) \<Rightarrow>
               (case NewRequestWithContext MethodGet (baseURL c2 @ databaseEndpoint) NoBody w2 of
                  None \<Rightarrow> (Inl ErrCreateRequest, c2, w2)
                | Some req0 \<Rightarrow>
                    (let req = HeaderSet headerReferer (sqlLabURL c2)
                                 (HeaderSet headerCSRF csrfToken
                                   (HeaderSet headerAccept contentTypeJSON req0)) in
                     case Do req w2 of
                       (Inl err, w3) \<Rightarrow> (Inl (ErrGetDatabases err), c2, w3)
                     | (Inr resp, w3) \<Rightarrow>
                         if BodyErr resp then (Inl ErrReadBody, c2, w3)
                         else if StatusCode resp \<noteq> 200 then
                           (Inl (ErrAPIStatus (StatusCode resp) (Body resp)), c2, w3)
                         else
                           (case Unmarshal w3 (Body resp) (\<lambda>j. dec_struct Result_field j []) of
                              Some result \<Rightarrow> (Inr result, c2, w3)
                            | None \<Rightarrow>
                                (case Unmarshal w3 (Body resp) (dec_slice dec_Database) of
                                   None \<Rightarrow> (Inl (ErrParse (Body resp)), c2, w3)
                                 | Some databases \<Rightarrow> (Inr databases, c2, w3)))))))"

text \<open>
  The two loops at the end of \<open>executeSQLInternal\<close>. Indexing a map with an absent key, or
  a nil map with any key, gives nil, the cell \<open>JNull\<close>.
\<close>

definition row_cell :: "(string \<rightharpoonup> json) \<Rightarrow> string \<Rightarrow> json" where
  "row_cell row k = (case row k of None \<Rightarrow> JNull | Some v \<Rightarrow> v)"

fun append_names :: "column list \<Rightarrow> string list \<Rightarrow> string list" where
  "append_names [] columns = columns"
| "append_names (col # cols) columns = append_names cols (columns @ [Name col])"

fun append_cells :: "(string \<rightharpoonup> json) \<Rightarrow> column list \<Rightarrow> json list \<Rightarrow> json list" where
  "append_cells row [] rowData = rowData"
| "append_cells row (col # cols) rowData = append_cells row cols (rowData @ [row_cell row (Name col)])"

fun append_rows ::
  "column list \<Rightarrow> (string \<rightharpoonup> json) list \<Rightarrow> json list list \<Rightarrow> json list list" where
  "append_rows cols [] data = data"
| "append_rows cols (row # rows) data = append_rows cols rows (data @ [append_cells row cols []])"

text \<open>
  \<open>executeSQLInternal\<close>. The payload is a map of an integer and two strings, for which
  \<open>json.Marshal\<close> returns no error.
\<close>

definition executeSQLInternal ::
  "Client \<Rightarrow> world \<Rightarrow> string \<Rightarrow> int \<Rightarrow> string \<Rightarrow> (client_error + SQLResult) \<times> Client \<times> world" where
  "executeSQLInternal c w sql databaseID schema =
     (case ensureLoggedIn c w of
        (Some err, c1, w1) \<Rightarrow> (Inl (ErrLogin err), c1, w1)
      | (None, c1, w1) \<Rightarrow>
          (case getCSRFToken c1 w1 of
             (Inl err, c2, w2) \<Rightarrow> (Inl (ErrGetCSRFToken err), c2, w2)
           | (Inr csrfToken, c2, w2) \<Rightarrow>
               (case NewRequestWithContext MethodPost (baseURL c2 @ sqlExecuteEndpoint)
                       (JSONBody [(''database_id'', JInt databaseID), (''sql'', JString sql),
                                  (''schema'', JString schema)]) w2 of
                  None \<Rightarrow> (Inl ErrCreateRequest, c2, w2)
                | Some req0 \<Rightarrow>
                    (let req = HeaderSet headerReferer (sqlLabURL c2)
                                 (HeaderSet headerCSRF csrfToken
                                   (HeaderSet headerAccept contentTypeJSON
                                     (HeaderSet ''Content-Type'' contentTypeJSON req0))) in
                     case Do req w2 of
                       (Inl err, w3) \<Rightarrow> (Inl (ErrExecuteSQL err), c2, w3)
                     | (Inr resp, w3) \<Rightarrow>
                         if BodyErr resp then (Inl ErrReadBody, c2, w3)
                         else if StatusCode resp \<noteq> 200 then
                           (Inl (ErrAPIStatus (StatusCode resp) (Body resp)), c2, w3)
                         else
                           (case Unmarshal w3 (Body resp) dec_supersetResponse of
                              None \<Rightarrow> (Inl (ErrParse (Body resp)), c2, w3)
                            | Some supersetResponse \<Rightarrow>
                                (Inr \<lparr>Columns = append_names (respColumns supersetResponse) [],
                                      Data = append_rows (respColumns supersetResponse)
                                               (respData supersetResponse) [],
                                      Query = respQuerySQL supersetResponse,
                                      Status = respStatus supersetResponse\<rparr>,
                                 c2, w3))))))"

definition ExecuteSQL ::
  "Client \<Rightarrow> world \<Rightarrow> string \<Rightarrow> int \<Rightarrow> (client_error + SQLResult) \<times> Client \<times> world" where
  "ExecuteSQL c w sql databaseID = executeSQLInternal c w sql databaseID []"

definition ExecuteSQLWithSchema ::
  "Client \<Rightarrow> world \<Rightarrow> string \<Rightarrow> int \<Rightarrow> string \<Rightarrow> (client_error + SQLResult) \<times> Client \<times> world" where
  "ExecuteSQLWithSchema c w sql databaseID schema = executeSQLInternal c w sql databaseID schema"

section \<open>Scenarios\<close>

text \<open>Concrete adapters, gateways, registries, clients and worlds on which the properties
  below are exercised.\<close>

definition adapterA :: Service where
  "adapterA = \<lparr>ident = 1, GetType = ''prometheus'', GetEndpoint = ''/prometheus/mcp''\<rparr>"


definition adapterC :: Service where
  "adapterC = \<lparr>ident = 3, GetType = ''superset'', GetEndpoint = ''/superset/mcp''\<rparr>"


definition adapterU :: Service where
  "adapterU = \<lparr>ident = 4, GetType = ''prometheus'', GetEndpoint = ''/prometheus//mcp''\<rparr>"

definition twoMounted :: Server where
  "twoMounted = AddService adapterC (AddService adapterA NewServer)"

definition factoryA :: ServiceFactory where
  "factoryA config timeout = (Some adapterA, None)"

definition regOne :: Registry where
  "regOne = RegisterServiceFactory ''prometheus'' factoryA initRegistry"

definition cfgPrometheus :: ServiceConfig where
  "cfgPrometheus = \<lparr>cfgGetType = ''prometheus'', cfgGetEndpoint = ''/prometheus/mcp'', cfgIsEnabled = True\<rparr>"

definition cfgSuperset :: ServiceConfig where
  "cfgSuperset = \<lparr>cfgGetType = ''superset'', cfgGetEndpoint = ''/superset/mcp'', cfgIsEnabled = True\<rparr>"

definition marshalNat :: "nat \<Rightarrow> string + string" where
  "marshalNat n = (if n = 0 then Inl ''json: unsupported value'' else Inr ''1'')"

definition client0 :: Client where
  "client0 = NewClient ''http://superset:8088'' ''admin'' ''secret''"

definition loginPage :: response where
  \<open>loginPage = \<lparr>StatusCode = 200, Location = [],
      Body = ''<form><input id="csrf_token" name="csrf_token" type="hidden" value="tok-1"></form>'',
      BodyErr = False\<rparr>\<close>

definition plainPage :: response where
  "plainPage = \<lparr>StatusCode = 200, Location = [], Body = ''<html>maintenance</html>'', BodyErr = False\<rparr>"

definition noJSON :: "string \<Rightarrow> json option" where
  "noJSON s = None"

definition worldOf :: "nat \<Rightarrow> (string + response) list \<Rightarrow> world" where
  "worldOf t rs = \<lparr>clock = t, ticks = [1, 1, 1, 1, 1, 1], replies = rs, sent = [],
                   url_ok = (\<lambda>u. True), json_of = noJSON\<rparr>"

definition staleClient :: Client where
  "staleClient = client0\<lparr>csrfCache := \<lparr>token = ''old'', expiresAt = 500\<rparr>\<rparr>"

definition badLogin :: response where
  "badLogin = \<lparr>StatusCode = 200, Location = [], Body = ''<div class=alert>Invalid login. Please try again.</div>'',
                BodyErr = False\<rparr>"

definition redirectWithMarker :: response where
  "redirectWithMarker = \<lparr>StatusCode = 302, Location = ''/superset/welcome/'',
                           Body = ''Invalid login'', BodyErr = False\<rparr>"

definition urlNoCTL :: "string \<Rightarrow> bool" where
  "urlNoCTL u = list_all (\<lambda>c. 32 \<le> (of_char c :: nat) \<and> (of_char c :: nat) \<noteq> 127) u"

definition brokenClient :: Client where
  "brokenClient = NewClient (''http://superset:8088'' @ [CHR 0x0A]) ''admin'' ''secret''"

definition strictWorld :: world where
  "strictWorld = (worldOf 1000 [Inr loginPage])\<lparr>url_ok := urlNoCTL\<rparr>"

definition readyClient :: Client where
  "readyClient = client0\<lparr>loggedIn := True, csrfCache := \<lparr>token = ''tok-1'', expiresAt = 5000\<rparr>\<rparr>"

definition sqlBody :: string where
  \<open>sqlBody = ''{"status":"success","columns":[{"name":"a"},{"name":"b"}],"data":[{"b":2,"a":1},{"a":3}]}''\<close>

definition deniedBody :: string where
  \<open>deniedBody = ''{"message":"Access is Denied"}''\<close>

definition envelopeBody :: string where
  \<open>envelopeBody = ''{"count":1,"result":[{"id":7,"database_name":"examples"}]}''\<close>

definition arrayBody :: string where
  \<open>arrayBody = ''[{"id":7,"database_name":"examples"}]''\<close>

definition exampleJSON :: "string \<Rightarrow> json option" where
  "exampleJSON s =
     (if s = sqlBody then
        Some (JObject [(''status'', JString ''success''),
                       (''columns'', JArray [JObject [(''name'', JString ''a'')],
                                             JObject [(''name'', JString ''b'')]]),
                       (''data'', JArray [JObject [(''b'', JInt 2), (''a'', JInt 1)],
                                          JObject [(''a'', JInt 3)]])])
      else if s = deniedBody then Some (JObject [(''message'', JString ''Access is Denied'')])
      else if s = envelopeBody then
        Some (JObject [(''count'', JInt 1),
                       (''result'', JArray [JObject [(''id'', JInt 7),
                                                     (''database_name'', JString ''examples'')]])])
      else if s = arrayBody then
        Some (JArray [JObject [(''id'', JInt 7), (''database_name'', JString ''examples'')]])
      else None)"

definition apiWorld :: "string \<Rightarrow> world" where
  "apiWorld body =
     (worldOf 0 [Inr \<lparr>StatusCode = 200, Location = [], Body = body, BodyErr = False\<rparr>])
       \<lparr>json_of := exampleJSON\<rparr>"

definition examplesDatabase :: Database where
  "examplesDatabase = zeroDatabase\<lparr>ID := 7, DatabaseName := ''examples''\<rparr>"

definition exampleResult :: SQLResult where
  "exampleResult = \<lparr>Columns = [''a'', ''b''], Data = [[JInt 1, JInt 2], [JInt 3, JNull]],
                     Query = [], Status = ''success''\<rparr>"

section \<open>Properties of the gateway\<close>












text \<open>
  Why the path has to be clean: a gateway started with an adapter at \<open>/prometheus//mcp\<close>
  answers a request to that very path with a redirect to the cleaned path, where nothing is
  mounted, so the adapter is never reached.
\<close>

lemma unclean_endpoint_redirected:
  "(case Start [''/prometheus//mcp''] (AddService adapterU NewServer) of
      Inl e \<Rightarrow> False
    | Inr s1 \<Rightarrow>
        (case ServeHTTP s1 ''/prometheus//mcp'' of Redirect p \<Rightarrow> p = ''/prometheus/mcp'' | _ \<Rightarrow> False)
        \<and> (case ServeHTTP s1 ''/prometheus/mcp'' of NotFound \<Rightarrow> True | _ \<Rightarrow> False))"
  by code_simp


text \<open>
  C10. \<open>RemoveService\<close> at a path where nothing is mounted returns the gateway as it was and
  calls \<open>Close()\<close> on no adapter. At a path where adapter \<open>a\<close> is mounted it calls \<open>Close()\<close>
  on \<open>a\<close> and on nothing else, and the routing table afterwards is the old one without that
  path: every other entry is as before. The handlers of a started gateway are not touched.
\<close>

theorem RemoveService_frame:
  "(services s endpoint = None \<longrightarrow> RemoveService endpoint s = (s, []))
   \<and> (\<forall>a. services s endpoint = Some a \<longrightarrow>
          snd (RemoveService endpoint s) = [a]
          \<and> services (fst (RemoveService endpoint s)) endpoint = None
          \<and> (\<forall>p. p \<noteq> endpoint \<longrightarrow> services (fst (RemoveService endpoint s)) p = services s p)
          \<and> dom (services (fst (RemoveService endpoint s))) = dom (services s) - {endpoint}
          \<and> server (fst (RemoveService endpoint s)) = server s)"
proof (cases "services s endpoint")
  case None
  then show ?thesis by (simp add: RemoveService_def)
next
  case (Some a)
  then have run: "RemoveService endpoint s = (s\<lparr>services := (services s)(endpoint := None)\<rparr>, [a])"
    by (simp add: RemoveService_def)
  have closed: "snd (RemoveService endpoint s) = [a]"
    by (simp add: run)
  have gone: "services (fst (RemoveService endpoint s)) endpoint = None"
    by (simp add: run)
  have others: "\<forall>p. p \<noteq> endpoint \<longrightarrow> services (fst (RemoveService endpoint s)) p = services s p"
    by (simp add: run)
  have keys: "dom (services (fst (RemoveService endpoint s))) = dom (services s) - {endpoint}"
    by (simp add: run)
  have mux: "server (fst (RemoveService endpoint s)) = server s"
    by (simp add: run)
  from Some closed gone others keys mux show ?thesis by simp
qed

text \<open>
  Both cases on a gateway with A at \<open>/prometheus/mcp\<close> and C at \<open>/superset/mcp\<close>: removing a path
  that is not mounted, and removing \<open>/superset/mcp\<close>, which closes C and leaves A in place.
\<close>

theorem RemoveService_frame_witness:
  "services twoMounted ''/nowhere'' = None
   \<and> RemoveService ''/nowhere'' twoMounted = (twoMounted, [])
   \<and> services twoMounted ''/superset/mcp'' = Some adapterC
   \<and> snd (RemoveService ''/superset/mcp'' twoMounted) = [adapterC]
   \<and> services (fst (RemoveService ''/superset/mcp'' twoMounted)) ''/superset/mcp'' = None
   \<and> services (fst (RemoveService ''/superset/mcp'' twoMounted)) ''/prometheus/mcp'' = Some adapterA"
proof -
  have h1: "services twoMounted ''/nowhere'' = None"
    by (simp add: twoMounted_def AddService_def NewServer_def adapterA_def adapterC_def)
  have h2: "services twoMounted ''/superset/mcp'' = Some adapterC"
    by (simp add: twoMounted_def AddService_def NewServer_def adapterA_def adapterC_def)
  have h3: "services twoMounted ''/prometheus/mcp'' = Some adapterA"
    by (simp add: twoMounted_def AddService_def NewServer_def adapterA_def adapterC_def)
  show ?thesis
    using RemoveService_frame [of twoMounted "''/nowhere''"]
      RemoveService_frame [of twoMounted "''/superset/mcp''"] h1 h2 h3
    by simp
qed

section \<open>Properties of the registry\<close>

text \<open>
  C2. \<open>Registry.Create\<close> is \<open>CreateService\<close>. When no factory is registered for the kind of the configuration, \<open>CreateService\<close>
  returns the \<open>UnsupportedServiceError\<close> for that kind and no service, and invokes no factory.
  When a factory is registered for the kind, the call invokes that factory once, with the
  configuration and the timeout it was given, invokes nothing else, and returns the factory's
  own result.
\<close>

theorem CreateService_dispatch:
  "Create config timeout r = CreateService config timeout r
   \<and> (serviceFactories r (cfgGetType config) = None \<longrightarrow>
      CreateService config timeout r =
        ((None, Some (UnsupportedServiceError (cfgGetType config))), []))
   \<and> (\<forall>factory. serviceFactories r (cfgGetType config) = Some factory \<longrightarrow>
      fst (CreateService config timeout r) = factory config timeout
      \<and> snd (CreateService config timeout r) = [(factory, config, timeout)])"
proof (cases "serviceFactories r (cfgGetType config)")
  case None
  then have "CreateService config timeout r =
        ((None, Some (UnsupportedServiceError (cfgGetType config))), [])"
    by (simp add: CreateService_def NewUnsupportedServiceError_def)
  with None show ?thesis by (simp add: Create_def)
next
  case (Some factory)
  then have result: "fst (CreateService config timeout r) = factory config timeout"
    and calls: "snd (CreateService config timeout r) = [(factory, config, timeout)]"
    by (simp_all add: CreateService_def)
  with Some show ?thesis by (simp add: Create_def)
qed

text \<open>
  Both cases on the registry that holds a factory for \<open>prometheus\<close> only.
\<close>

theorem CreateService_dispatch_witness:
  "serviceFactories regOne (cfgGetType cfgSuperset) = None
   \<and> CreateService cfgSuperset 30 regOne = ((None, Some (UnsupportedServiceError ''superset'')), [])
   \<and> serviceFactories regOne (cfgGetType cfgPrometheus) = Some factoryA
   \<and> CreateService cfgPrometheus 30 regOne = ((Some adapterA, None), [(factoryA, cfgPrometheus, 30)])"
proof -
  have h1: "serviceFactories regOne (cfgGetType cfgSuperset) = None"
    by (simp add: regOne_def RegisterServiceFactory_def initRegistry_def cfgSuperset_def)
  have h2: "serviceFactories regOne (cfgGetType cfgPrometheus) = Some factoryA"
    by (simp add: regOne_def RegisterServiceFactory_def initRegistry_def cfgPrometheus_def)
  have h3: "cfgGetType cfgSuperset = ''superset''"
    by (simp add: cfgSuperset_def)
  show ?thesis
    using CreateService_dispatch [where r = regOne and config = cfgSuperset and timeout = 30]
      CreateService_dispatch [where r = regOne and config = cfgPrometheus and timeout = 30] h1 h2 h3
    by (simp add: factoryA_def prod_eq_iff)
qed

text \<open>
  C3 as stated fails: on a registry whose listing has not been cached yet,
  \<open>GetSupportedServiceTypes\<close> returns a registry that differs from the one it was called on
  (it has stored the listing and set \<open>cacheValid\<close>).
\<close>

theorem lookup_mutates_counterexample:
  "fst (snd (GetSupportedServiceTypes [''prometheus''] regOne [])) \<noteq> regOne"
proof
  assume "fst (snd (GetSupportedServiceTypes [''prometheus''] regOne [])) = regOne"
  then have "cacheValid (fst (snd (GetSupportedServiceTypes [''prometheus''] regOne []))) = cacheValid regOne"
    by simp
  then show False
    by (simp add: GetSupportedServiceTypes_def regOne_def RegisterServiceFactory_def
        initRegistry_def make_slice_def)
qed

lemma slice_at_append: "a < length h \<Longrightarrow> slice_at (h @ k) a = slice_at h a"
  by (simp add: slice_at_def nth_append)

lemma slice_at_new: "slice_at (h @ [xs]) (length h) = xs"
  by (simp add: slice_at_def)

text \<open>
  C3, as the code has it. \<open>GetSupportedServiceTypes\<close> never changes the factory map; what it
  may write is the cached listing (\<open>supportedTypesCache\<close> and \<open>cacheValid\<close>). The slice it
  returns is a newly allocated array: it is none of the arrays that existed before the call
  and it is not the array of the cache, and the arrays that existed before keep their
  contents. Hence whatever the caller writes into the returned slice, the cached listing
  keeps its contents, and a later lookup leaves the registry as it is and returns a fresh
  slice with the kinds the first call returned. \<open>Registry.GetSupportedTypes\<close> is the same
  function.
\<close>

theorem GetSupportedServiceTypes_copy:
  assumes ok: "registry_heap_ok r h"
    and run: "GetSupportedServiceTypes keys r h = (result, r1, h1)"
  shows "GetSupportedTypes keys r h = GetSupportedServiceTypes keys r h
    \<and> serviceFactories r1 = serviceFactories r
    \<and> length h \<le> result \<and> result < length h1
    \<and> supportedTypesCache r1 \<noteq> Some result
    \<and> (\<forall>a < length h. slice_at h1 a = slice_at h a)
    \<and> (\<forall>xs cache. supportedTypesCache r1 = Some cache
          \<longrightarrow> slice_at (write_slice result xs h1) cache = slice_at h1 cache)
    \<and> (\<forall>xs keys2. GetSupportedServiceTypes keys2 r1 (write_slice result xs h1)
          = (length h1, r1, write_slice result xs h1 @ [slice_at h1 result]))"
proof (cases "cacheValid r \<and> supportedTypesCache r \<noteq> None")
  case True
  then obtain c where c: "supportedTypesCache r = Some c" and v: "cacheValid r" by auto
  from ok c have lt: "c < length h" by (simp add: registry_heap_ok_def)
  from run c v have res: "result = length h" "r1 = r" "h1 = h @ [slice_at h c]"
    by (simp_all add: GetSupportedServiceTypes_def make_slice_def)
  have later: "slice_at (write_slice result xs h1) c = slice_at h1 result" for xs
    using lt by (simp add: res write_slice_def slice_at_def nth_append)
  have kept: "slice_at (write_slice result xs h1) c = slice_at h1 c" for xs
    using lt by (simp add: res write_slice_def slice_at_def nth_append)
  show ?thesis
    using lt c v later kept
    by (simp add: res GetSupportedTypes_def GetSupportedServiceTypes_def make_slice_def slice_at_append
        slice_at_new write_slice_def)
next
  case False
  then have run': "GetSupportedServiceTypes keys r h =
      (length h, r\<lparr>supportedTypesCache := Some (Suc (length h)), cacheValid := True\<rparr>, h @ [keys, keys])"
    by (cases "cacheValid r"; cases "supportedTypesCache r")
       (simp_all add: GetSupportedServiceTypes_def make_slice_def slice_at_def nth_append)
  from run run' have "(result, r1, h1) =
      (length h, r\<lparr>supportedTypesCache := Some (Suc (length h)), cacheValid := True\<rparr>, h @ [keys, keys])"
    by (rule trans [OF sym])
  then have res: "result = length h"
    "r1 = r\<lparr>supportedTypesCache := Some (Suc (length h)), cacheValid := True\<rparr>"
    "h1 = h @ [keys, keys]"
    by blast+
  show ?thesis
    by (simp add: res GetSupportedTypes_def GetSupportedServiceTypes_def make_slice_def slice_at_def
        nth_append write_slice_def)
qed

text \<open>
  The theorem on the registry with one factory and an empty heap: the first lookup fills the
  cache, the caller overwrites the slice it got, and the second lookup still returns the
  registered kind.
\<close>

theorem GetSupportedServiceTypes_copy_witness:
  "registry_heap_ok regOne []
   \<and> GetSupportedServiceTypes [''prometheus''] regOne []
       = (0, regOne\<lparr>supportedTypesCache := Some 1, cacheValid := True\<rparr>, [[''prometheus''], [''prometheus'']])
   \<and> GetSupportedServiceTypes [] (regOne\<lparr>supportedTypesCache := Some 1, cacheValid := True\<rparr>)
         (write_slice 0 [''overwritten''] [[''prometheus''], [''prometheus'']])
       = (2, regOne\<lparr>supportedTypesCache := Some 1, cacheValid := True\<rparr>,
          [[''overwritten''], [''prometheus''], [''prometheus'']])"
proof -
  have h1: "registry_heap_ok regOne []"
    by (simp add: registry_heap_ok_def regOne_def RegisterServiceFactory_def initRegistry_def)
  have h2: "GetSupportedServiceTypes [''prometheus''] regOne []
       = (0, regOne\<lparr>supportedTypesCache := Some 1, cacheValid := True\<rparr>, [[''prometheus''], [''prometheus'']])"
    by (simp add: GetSupportedServiceTypes_def regOne_def RegisterServiceFactory_def
        initRegistry_def make_slice_def slice_at_def)
  show ?thesis
    using GetSupportedServiceTypes_copy [OF h1 h2] h1 h2
    by (simp add: write_slice_def slice_at_def)
qed

section \<open>Properties of the envelopes\<close>

text \<open>
  C9. Each response constructor returns an envelope together with a nil Go error. The
  envelope of \<open>CreateSuccessResponse\<close> (and of its alias \<open>CreateJSONResponse\<close>) is exactly one
  of a success envelope and an error envelope: when \<open>json.Marshal\<close> fails it is the error
  envelope whose text is the marshalling message followed by the error, otherwise the success
  envelope carrying the JSON text. The envelope of \<open>CreateErrorResponse\<close> is an error envelope
  and not a success envelope.
\<close>

theorem response_envelopes:
  "snd (CreateSuccessResponse Marshal data) = None
   \<and> success_envelope (fst (CreateSuccessResponse Marshal data))
        \<noteq> error_envelope (fst (CreateSuccessResponse Marshal data))
   \<and> (\<forall>err. Marshal data = Inl err \<longrightarrow>
         CreateSuccessResponse Marshal data =
           (\<lparr>IsError = True, Content = [TextContent (errJSONMarshalFailed @ err)]\<rparr>, None)
         \<and> error_envelope (fst (CreateSuccessResponse Marshal data)))
   \<and> (\<forall>jsonData. Marshal data = Inr jsonData \<longrightarrow>
         CreateSuccessResponse Marshal data =
           (\<lparr>IsError = False, Content = [TextContent jsonData]\<rparr>, None)
         \<and> success_envelope (fst (CreateSuccessResponse Marshal data)))
   \<and> CreateJSONResponse Marshal data = CreateSuccessResponse Marshal data
   \<and> snd (CreateErrorResponse Sprintf format args) = None
   \<and> error_envelope (fst (CreateErrorResponse Sprintf format args))
   \<and> \<not> success_envelope (fst (CreateErrorResponse Sprintf format args))"
  by (cases "Marshal data")
     (simp_all add: CreateSuccessResponse_def CreateErrorResponse_def CreateJSONResponse_def
        success_envelope_def error_envelope_def single_text_def)

text \<open>
  Both outcomes of marshalling, with a \<open>Marshal\<close> that fails on 0 and succeeds otherwise.
\<close>

theorem response_envelopes_witness:
  "marshalNat 0 = Inl ''json: unsupported value''
   \<and> CreateSuccessResponse marshalNat 0 =
       (\<lparr>IsError = True, Content = [TextContent (errJSONMarshalFailed @ ''json: unsupported value'')]\<rparr>, None)
   \<and> marshalNat 7 = Inr ''1''
   \<and> CreateSuccessResponse marshalNat 7 = (\<lparr>IsError = False, Content = [TextContent ''1'']\<rparr>, None)"
proof -
  have h1: "marshalNat 0 = Inl ''json: unsupported value''"
    by (simp add: marshalNat_def)
  have h2: "marshalNat 7 = Inr ''1''"
    by (simp add: marshalNat_def)
  have a: "CreateSuccessResponse marshalNat 0 =
       (\<lparr>IsError = True, Content = [TextContent (errJSONMarshalFailed @ ''json: unsupported value'')]\<rparr>, None)"
    using response_envelopes [where Marshal = marshalNat and data = 0 and Sprintf = "\<lambda>f a. f"
        and format = "[]" and args = "[] :: nat list"] h1
    by blast
  have b: "CreateSuccessResponse marshalNat 7 = (\<lparr>IsError = False, Content = [TextContent ''1'']\<rparr>, None)"
    using response_envelopes [where Marshal = marshalNat and data = 7 and Sprintf = "\<lambda>f a. f"
        and format = "[]" and args = "[] :: nat list"] h2
    by blast
  show ?thesis
    using a b h1 h2 by simp
qed

section \<open>Properties of the session client\<close>

lemma TimeNow_effect:
  "TimeNow w = (t, w1) \<Longrightarrow>
     t = clock w1 \<and> clock w \<le> t \<and> sent w1 = sent w \<and> replies w1 = replies w
     \<and> url_ok w1 = url_ok w \<and> json_of w1 = json_of w"
  by (auto simp: TimeNow_def split: list.splits)

lemma cache_valid_effect:
  "cache_valid c w = (b, w1) \<Longrightarrow>
     clock w \<le> clock w1 \<and> sent w1 = sent w \<and> replies w1 = replies w
     \<and> url_ok w1 = url_ok w \<and> json_of w1 = json_of w"
  by (auto simp: cache_valid_def split: if_splits prod.splits dest: TimeNow_effect)

lemma cache_valid_expired:
  assumes "token (csrfCache c) = [] \<or> expiresAt (csrfCache c) \<le> clock w"
  shows "fst (cache_valid c w) = False"
proof (cases "token (csrfCache c) = []")
  case True
  then show ?thesis by (simp add: cache_valid_def)
next
  case False
  obtain t w1 where tn: "TimeNow w = (t, w1)" by (cases "TimeNow w")
  from TimeNow_effect [OF tn] assms False have "\<not> t < expiresAt (csrfCache c)" by auto
  with False tn show ?thesis by (simp add: cache_valid_def)
qed

lemma match_here_shape: "match_here s = [] \<or> (\<exists>m g. match_here s = [m, g])"
  by (auto simp: match_here_def Let_def split: option.splits)

lemma FindStringSubmatch_shape:
  "FindStringSubmatch s = [] \<or> (\<exists>m g. FindStringSubmatch s = [m, g])"
proof (induction s)
  case Nil
  show ?case using match_here_shape [of "[]"] by simp
next
  case (Cons c cs)
  show ?case using match_here_shape [of "c # cs"] Cons by (auto split: list.splits)
qed

lemma follow_effect:
  "follow ok via rs = (r, rest) \<Longrightarrow>
     suffix rest rs
     \<and> (\<forall>resp. r = Inr resp \<longrightarrow>
           Inr resp \<in> set rs \<and> \<not> (is_redirect (StatusCode resp) \<and> Location resp \<noteq> []))"
proof (induction ok via rs rule: follow.induct)
  case (1 ok via)
  then show ?case by auto
next
  case (2 ok via err rs)
  then show ?case by (auto simp: suffix_Cons)
next
  case (3 ok via resp rs)
  show ?case
  proof (cases "is_redirect (StatusCode resp) \<and> Location resp \<noteq> []")
    case False
    with "3.prems" show ?thesis by (auto simp: suffix_Cons)
  next
    case True
    show ?thesis
    proof (cases "ok (Location resp) \<and> \<not> 10 \<le> Suc via")
      case False
      with True "3.prems" show ?thesis by (auto simp: suffix_Cons split: if_splits)
    next
      case hop: True
      with True "3.prems" have "follow ok (Suc via) rs = (r, rest)" by simp
      with "3.IH" True hop show ?thesis by (auto simp: suffix_Cons)
    qed
  qed
qed

lemma follow_direct:
  "\<not> is_redirect (StatusCode resp) \<Longrightarrow> follow ok via (Inr resp # rs) = (Inr resp, rs)"
  by simp

lemma Do_effect:
  "Do req w = (r, w1) \<Longrightarrow>
     sent w1 = sent w @ [req] \<and> clock w1 = clock w \<and> url_ok w1 = url_ok w \<and> json_of w1 = json_of w
     \<and> follow (url_ok w) 0 (replies w) = (r, replies w1)"
  by (auto simp: Do_def split: prod.splits)

text \<open>
  C5, as the code has it. Let the cache be empty or its expiry be reached at the time of the
  call. \<open>getCSRFToken\<close> never returns what the cache held. When the request for the login
  page can be built, it calls \<open>httpClient.Do\<close> exactly once, with the GET of the login page;
  when the URL does not parse, it calls it not at all and returns the error of the request
  construction. When it returns a token, that token is the group the pattern matched in the
  page that \<open>Do\<close> returned, and the cache then holds it with the expiry
  \<open>csrfTokenCacheDuration\<close> after the clock reading taken at that point. When the pattern
  finds nothing in the page, the result is the error for a missing token, and on every error
  the client, and so the cache, is as before.
\<close>

theorem getCSRFToken_refetch:
  assumes expired: "token (csrfCache c) = [] \<or> expiresAt (csrfCache c) \<le> clock w"
    and run: "getCSRFToken c w = (res, c1, w1)"
  shows "(url_ok w (baseURL c @ loginEndpoint) \<longrightarrow>
            sent w1 = sent w @ [\<lparr>Method = MethodGet, URL = baseURL c @ loginEndpoint, Header = [],
                                  Payload = NoBody\<rparr>])
    \<and> (\<not> url_ok w (baseURL c @ loginEndpoint) \<longrightarrow> sent w1 = sent w \<and> res = Inl ErrCreateRequest)
    \<and> (case res of
          Inr tok \<Rightarrow>
            (\<exists>resp rest m. follow (url_ok w) 0 (replies w) = (Inr resp, rest) \<and> \<not> BodyErr resp
                \<and> FindStringSubmatch (Body resp) = [m, tok])
            \<and> c1 = c\<lparr>csrfCache := \<lparr>token = tok, expiresAt = clock w1 + csrfTokenCacheDuration\<rparr>\<rparr>
        | Inl err \<Rightarrow> c1 = c)
    \<and> (\<forall>resp rest. url_ok w (baseURL c @ loginEndpoint)
          \<and> follow (url_ok w) 0 (replies w) = (Inr resp, rest) \<and> \<not> BodyErr resp
          \<and> FindStringSubmatch (Body resp) = [] \<longrightarrow> res = Inl ErrNoCSRFToken)
    \<and> (\<forall>resp rest m tok. url_ok w (baseURL c @ loginEndpoint)
          \<and> follow (url_ok w) 0 (replies w) = (Inr resp, rest) \<and> \<not> BodyErr resp
          \<and> FindStringSubmatch (Body resp) = [m, tok] \<longrightarrow> res = Inr tok)"
proof -
  obtain b1 wa where cv1: "cache_valid c w = (b1, wa)" by (cases "cache_valid c w")
  from cache_valid_expired [OF expired] cv1 have b1: "b1 = False" by simp
  note ea = cache_valid_effect [OF cv1]
  from expired ea have expired2: "token (csrfCache c) = [] \<or> expiresAt (csrfCache c) \<le> clock wa"
    by auto
  obtain b2 wb where cv2: "cache_valid c wa = (b2, wb)" by (cases "cache_valid c wa")
  from cache_valid_expired [OF expired2] cv2 have b2: "b2 = False" by simp
  note eb = cache_valid_effect [OF cv2]
  have same: "url_ok wb = url_ok w" "replies wb = replies w" "sent wb = sent w"
    using ea eb by simp_all
  let ?req = "\<lparr>Method = MethodGet, URL = baseURL c @ loginEndpoint, Header = [], Payload = NoBody\<rparr>"
  show ?thesis
  proof (cases "url_ok w (baseURL c @ loginEndpoint)")
    case False
    then have "getCSRFToken c w = (Inl ErrCreateRequest, c, wb)"
      by (simp add: getCSRFToken_def cv1 b1 cv2 b2 NewRequestWithContext_def same)
    with run have "res = Inl ErrCreateRequest" "c1 = c" "w1 = wb" by simp_all
    with False same show ?thesis by simp
  next
    case True
    then have nr: "NewRequestWithContext MethodGet (baseURL c @ loginEndpoint) NoBody wb = Some ?req"
      by (simp add: NewRequestWithContext_def same)
    obtain r wc where d: "Do ?req wb = (r, wc)" by (cases "Do ?req wb")
    note ec = Do_effect [OF d]
    have fol: "follow (url_ok w) 0 (replies w) = (r, replies wc)"
      using ec same by simp
    have step: "getCSRFToken c w =
       (case r of
          Inl err \<Rightarrow> (Inl (ErrFetchLoginPage err), c, wc)
        | Inr resp \<Rightarrow>
            if BodyErr resp then (Inl ErrReadBody, c, wc)
            else (let matches = FindStringSubmatch (Body resp) in
                  if length matches < 2 then (Inl ErrNoCSRFToken, c, wc)
                  else (case TimeNow wc of
                          (t, w4) \<Rightarrow>
                            (Inr (matches ! 1),
                             c\<lparr>csrfCache := \<lparr>token = matches ! 1, expiresAt = t + csrfTokenCacheDuration\<rparr>\<rparr>,
                             w4))))"
      by (simp add: getCSRFToken_def cv1 b1 cv2 b2 nr d)
    have sent_wc: "sent wc = sent w @ [?req]" using ec same by simp
    show ?thesis
    proof (cases r)
      case (Inl err)
      with step run have "res = Inl (ErrFetchLoginPage err)" "c1 = c" "w1 = wc" by simp_all
      then show ?thesis using sent_wc True fol Inl by simp
    next
      case (Inr resp)
      show ?thesis
      proof (cases "BodyErr resp")
        case berr: True
        with Inr step run have "res = Inl ErrReadBody" "c1 = c" "w1 = wc" by simp_all
        then show ?thesis using sent_wc True fol Inr berr by auto
      next
        case False
        from FindStringSubmatch_shape [of "Body resp"] show ?thesis
        proof
          assume none: "FindStringSubmatch (Body resp) = []"
          with Inr False step run have "res = Inl ErrNoCSRFToken" "c1 = c" "w1 = wc" by simp_all
          then show ?thesis using sent_wc True fol Inr False none by auto
        next
          assume "\<exists>m g. FindStringSubmatch (Body resp) = [m, g]"
          then obtain m g where some: "FindStringSubmatch (Body resp) = [m, g]" by blast
          obtain t w4 where tn: "TimeNow wc = (t, w4)" by (cases "TimeNow wc")
          note e4 = TimeNow_effect [OF tn]
          from Inr False step run some tn have
            "res = Inr g" "c1 = c\<lparr>csrfCache := \<lparr>token = g, expiresAt = t + csrfTokenCacheDuration\<rparr>\<rparr>"
            "w1 = w4"
            by simp_all
          then show ?thesis using sent_wc True fol Inr False some e4 by auto
        qed
      qed
    qed
  qed
qed

text \<open>
  A client whose token expired at 500, called at 1000: against a login page carrying the
  token \<open>tok-1\<close>, and against a page without the token field.
\<close>

theorem getCSRFToken_refetch_witness:
  "(token (csrfCache staleClient) = [] \<or> expiresAt (csrfCache staleClient) \<le> clock (worldOf 1000 [Inr loginPage]))
   \<and> url_ok (worldOf 1000 [Inr loginPage]) (baseURL staleClient @ loginEndpoint)
   \<and> fst (getCSRFToken staleClient (worldOf 1000 [Inr loginPage])) = Inr ''tok-1''
   \<and> csrfCache (fst (snd (getCSRFToken staleClient (worldOf 1000 [Inr loginPage]))))
       = \<lparr>token = ''tok-1'', expiresAt = 1003 + csrfTokenCacheDuration\<rparr>
   \<and> length (sent (snd (snd (getCSRFToken staleClient (worldOf 1000 [Inr loginPage]))))) = 1
   \<and> fst (getCSRFToken staleClient (worldOf 1000 [Inr plainPage])) = Inl ErrNoCSRFToken
   \<and> fst (snd (getCSRFToken staleClient (worldOf 1000 [Inr plainPage]))) = staleClient"
proof -
  let ?w = "worldOf 1000 [Inr loginPage]"
  let ?v = "worldOf 1000 [Inr plainPage]"
  have h1: "token (csrfCache staleClient) = [] \<or> expiresAt (csrfCache staleClient) \<le> clock (worldOf 1000 rs)"
    for rs
    by (simp add: staleClient_def worldOf_def)
  have h2: "url_ok (worldOf 1000 rs) (baseURL staleClient @ loginEndpoint)" for rs
    by (simp add: worldOf_def)
  have h3: "getCSRFToken staleClient (worldOf 1000 rs) =
      (fst (getCSRFToken staleClient (worldOf 1000 rs)), fst (snd (getCSRFToken staleClient (worldOf 1000 rs))),
       snd (snd (getCSRFToken staleClient (worldOf 1000 rs))))" for rs
    by simp
  have h4: "follow (url_ok ?w) 0 (replies ?w) = (Inr loginPage, [])"
    "follow (url_ok ?v) 0 (replies ?v) = (Inr plainPage, [])"
    by (simp_all add: worldOf_def loginPage_def plainPage_def is_redirect_def)
  have h5: \<open>FindStringSubmatch (Body loginPage) = [''name="csrf_token" type="hidden" value="tok-1"'', ''tok-1'']\<close>
    by (simp add: loginPage_def match_here_def name_attr_def match_value_def value_open_def quote_def)
  have h6: "\<not> BodyErr loginPage" "\<not> BodyErr plainPage"
    by (simp_all add: loginPage_def plainPage_def)
  have h7: "clock (snd (snd (getCSRFToken staleClient ?w))) = 1003"
    by (simp add: getCSRFToken_def cache_valid_def TimeNow_def staleClient_def worldOf_def
        NewRequestWithContext_def Do_def is_redirect_def h5 h6 loginPage_def [THEN arg_cong [of _ _ StatusCode]]
        loginPage_def [THEN arg_cong [of _ _ Location]])
  have h8: "FindStringSubmatch (Body plainPage) = []"
    by code_simp
  from getCSRFToken_refetch [OF h1 h3, of "[Inr loginPage]"] h2 h4 h5 h6
  have res: "fst (getCSRFToken staleClient ?w) = Inr ''tok-1''" by blast
  from getCSRFToken_refetch [OF h1 h3, of "[Inr loginPage]"] res h7 h2
  have cache: "csrfCache (fst (snd (getCSRFToken staleClient ?w)))
       = \<lparr>token = ''tok-1'', expiresAt = 1003 + csrfTokenCacheDuration\<rparr>"
    and one: "length (sent (snd (snd (getCSRFToken staleClient ?w)))) = 1"
    by (simp_all add: worldOf_def)
  from getCSRFToken_refetch [OF h1 h3, of "[Inr plainPage]"] h2 h4 h6 h8
  have err: "fst (getCSRFToken staleClient ?v) = Inl ErrNoCSRFToken" by blast
  from getCSRFToken_refetch [OF h1 h3, of "[Inr plainPage]"] err
  have same: "fst (snd (getCSRFToken staleClient ?v)) = staleClient" by simp
  from h1 [of "[Inr loginPage]"] h2 [of "[Inr loginPage]"] res cache one err same
  show ?thesis by blast
qed

text \<open>
  C5 as stated fails: a client that was built with a base URL ending in a line feed, which
  \<open>url.Parse\<close> rejects, and whose cache is empty. \<open>getCSRFToken\<close> returns the error of the
  request construction and performs no fetch.
\<close>

theorem getCSRFToken_no_fetch_counterexample:
  "token (csrfCache brokenClient) = []
   \<and> fst (getCSRFToken brokenClient strictWorld) = Inl ErrCreateRequest
   \<and> sent (snd (snd (getCSRFToken brokenClient strictWorld))) = []"
  by code_simp


lemma getCSRFTokenForLogin_run:
  "getCSRFTokenForLogin c w =
     (if \<not> url_ok w (baseURL c @ loginEndpoint) then (Inl ErrCreateRequest, w)
      else
        (let x = fst (follow (url_ok w) 0 (replies w));
             w1 = w\<lparr>replies := snd (follow (url_ok w) 0 (replies w)),
                    sent := sent w @ [\<lparr>Method = MethodGet, URL = baseURL c @ loginEndpoint,
                                        Header = [], Payload = NoBody\<rparr>]\<rparr>
         in case x of
              Inl err \<Rightarrow> (Inl (ErrFetchLoginPage err), w1)
            | Inr resp \<Rightarrow>
                if BodyErr resp then (Inl ErrReadBody, w1)
                else if length (FindStringSubmatch (Body resp)) < 2 then (Inl ErrNoCSRFToken, w1)
                else (Inr (FindStringSubmatch (Body resp) ! 1), w1)))"
  by (simp add: getCSRFTokenForLogin_def NewRequestWithContext_def Do_def Let_def
      split: prod.splits sum.splits)

lemma getCSRFTokenForLogin_world:
  assumes "getCSRFTokenForLogin c w = (r, w1)"
  shows "clock w1 = clock w \<and> url_ok w1 = url_ok w \<and> json_of w1 = json_of w
    \<and> suffix (replies w1) (replies w)"
proof -
  obtain x rest where f: "follow (url_ok w) 0 (replies w) = (x, rest)"
    by (cases "follow (url_ok w) 0 (replies w)")
  from follow_effect [OF f] have suf: "suffix rest (replies w)" by simp
  from assms have "w1 = w \<or> w1 = w\<lparr>replies := rest,
      sent := sent w @ [\<lparr>Method = MethodGet, URL = baseURL c @ loginEndpoint, Header = [], Payload = NoBody\<rparr>]\<rparr>"
    by (simp add: getCSRFTokenForLogin_run f Let_def split: if_splits sum.splits)
  then show ?thesis
  proof
    assume "w1 = w"
    then show ?thesis by simp
  next
    assume "w1 = w\<lparr>replies := rest,
      sent := sent w @ [\<lparr>Method = MethodGet, URL = baseURL c @ loginEndpoint, Header = [], Payload = NoBody\<rparr>]\<rparr>"
    with suf show ?thesis by simp
  qed
qed

lemma getCSRFTokenForLogin_sent:
  assumes "getCSRFTokenForLogin c w = (r, w1)"
  shows "sent w1 = sent w
    \<or> sent w1 = sent w @ [\<lparr>Method = MethodGet, URL = baseURL c @ loginEndpoint, Header = [], Payload = NoBody\<rparr>]"
  using assms by (simp add: getCSRFTokenForLogin_run Let_def split: if_splits sum.splits) auto

lemma getCSRFTokenForLogin_token:
  assumes "getCSRFTokenForLogin c w = (Inr tok, w1)"
  shows "url_ok w (baseURL c @ loginEndpoint)
    \<and> sent w1 = sent w @ [\<lparr>Method = MethodGet, URL = baseURL c @ loginEndpoint, Header = [], Payload = NoBody\<rparr>]
    \<and> (\<exists>page m. follow (url_ok w) 0 (replies w) = (Inr page, replies w1) \<and> \<not> BodyErr page
           \<and> FindStringSubmatch (Body page) = [m, tok])"
proof -
  obtain x rest where f: "follow (url_ok w) 0 (replies w) = (x, rest)"
    by (cases "follow (url_ok w) 0 (replies w)")
  from assms have u: "url_ok w (baseURL c @ loginEndpoint)"
    by (simp add: getCSRFTokenForLogin_run split: if_splits)
  with assms f obtain page where x: "x = Inr page" and nb: "\<not> BodyErr page"
    and len: "\<not> length (FindStringSubmatch (Body page)) < 2"
    and tk: "tok = FindStringSubmatch (Body page) ! 1"
    and w1: "w1 = w\<lparr>replies := rest,
      sent := sent w @ [\<lparr>Method = MethodGet, URL = baseURL c @ loginEndpoint, Header = [], Payload = NoBody\<rparr>]\<rparr>"
    by (cases x) (simp_all add: getCSRFTokenForLogin_run Let_def split: if_splits)
  from FindStringSubmatch_shape [of "Body page"] len tk
  obtain m where m: "FindStringSubmatch (Body page) = [m, tok]" by auto
  have "follow (url_ok w) 0 (replies w) = (Inr page, replies w1)"
    using f x w1 by simp
  with nb m have "\<exists>page m. follow (url_ok w) 0 (replies w) = (Inr page, replies w1) \<and> \<not> BodyErr page
           \<and> FindStringSubmatch (Body page) = [m, tok]"
    by blast
  with u w1 show ?thesis by simp
qed

lemma getCSRFTokenForLogin_page:
  assumes "url_ok w (baseURL c @ loginEndpoint)"
    and "follow (url_ok w) 0 (replies w) = (Inr page, rest)"
    and "\<not> BodyErr page" and "FindStringSubmatch (Body page) \<noteq> []"
  shows "\<exists>tok w1. getCSRFTokenForLogin c w = (Inr tok, w1)"
proof -
  from FindStringSubmatch_shape [of "Body page"] assms(4)
  obtain m tok where "FindStringSubmatch (Body page) = [m, tok]" by auto
  with assms(1-3) show ?thesis
    by (simp add: getCSRFTokenForLogin_run Let_def)
qed

lemma no_location_no_success: "isSuccessfulRedirect [] = False"
  by code_simp

text \<open>
  What \<open>Login\<close> does with the response to the login request, once it has one.
\<close>

lemma Login_classify:
  assumes out: "\<not> loggedIn c"
    and g: "getCSRFTokenForLogin c w = (Inr tok, wa)"
    and f: "follow (url_ok w) 0 (replies wa) = (Inr resp, rest)"
    and run: "Login c w = (err, c1, w1)"
  shows "(err, c1) =
      (if StatusCode resp = 200 \<and> isLoginError (Body resp) then (Some ErrBadCredentials, c)
       else if StatusCode resp = 200 \<and> isLoginSuccess (Body resp) then (None, c\<lparr>loggedIn := True\<rparr>)
       else if StatusCode resp = 200 then (Some ErrLoginFailed, c)
       else (Some (ErrLoginStatus (StatusCode resp)), c))"
proof -
  from getCSRFTokenForLogin_token [OF g] have u: "url_ok w (baseURL c @ loginEndpoint)" by simp
  from getCSRFTokenForLogin_world [OF g] have uw: "url_ok wa = url_ok w" by simp
  from follow_effect [OF f]
  have nored: "\<not> (is_redirect (StatusCode resp) \<and> Location resp \<noteq> [])" by simp
  have noloc: "\<not> ((StatusCode resp = 302 \<or> StatusCode resp = 303)
           \<and> isSuccessfulRedirect (Location resp))"
  proof (cases "Location resp = []")
    case True
    then show ?thesis by (simp add: no_location_no_success)
  next
    case False
    with nored show ?thesis by (simp add: is_redirect_def)
  qed
  have "fst (Login c w) = fst
      (if StatusCode resp = 200 \<and> isLoginError (Body resp) then (Some ErrBadCredentials, c)
       else if StatusCode resp = 200 \<and> isLoginSuccess (Body resp) then (None, c\<lparr>loggedIn := True\<rparr>)
       else if StatusCode resp = 200 then (Some ErrLoginFailed, c)
       else (Some (ErrLoginStatus (StatusCode resp)), c))
    \<and> fst (snd (Login c w)) = snd
      (if StatusCode resp = 200 \<and> isLoginError (Body resp) then (Some ErrBadCredentials, c)
       else if StatusCode resp = 200 \<and> isLoginSuccess (Body resp) then (None, c\<lparr>loggedIn := True\<rparr>)
       else if StatusCode resp = 200 then (Some ErrLoginFailed, c)
       else (Some (ErrLoginStatus (StatusCode resp)), c))"
    using out u uw f noloc
    by (cases "StatusCode resp = 302 \<or> StatusCode resp = 303")
       (auto simp: Login_def g NewRequestWithContext_def Do_def Let_def)
  with run show ?thesis by (simp add: prod_eq_iff)
qed

lemma Login_sent:
  assumes "Login c w = (err, c1, w1)"
  shows "\<exists>new. sent w1 = sent w @ new
          \<and> length (filter (\<lambda>r. Method r = MethodGet) new) \<le> 1
          \<and> length (filter (\<lambda>r. Method r = MethodPost) new) \<le> 1"
proof (cases "loggedIn c")
  case True
  with assms have "sent w1 = sent w @ []" by (simp add: Login_def)
  then show ?thesis by (intro exI [of _ "[]"]) simp
next
  case False
  obtain r wa where g: "getCSRFTokenForLogin c w = (r, wa)"
    by (cases "getCSRFTokenForLogin c w")
  let ?get = "\<lparr>Method = MethodGet, URL = baseURL c @ loginEndpoint, Header = [], Payload = NoBody\<rparr>"
  show ?thesis
  proof (cases r)
    case (Inl e)
    with False assms g have "w1 = wa" by (simp add: Login_def)
    with getCSRFTokenForLogin_sent [OF g] have "sent w1 = sent w @ [] \<or> sent w1 = sent w @ [?get]"
      by simp
    then show ?thesis
    proof
      assume "sent w1 = sent w @ []"
      then show ?thesis by (intro exI [of _ "[]"]) simp
    next
      assume "sent w1 = sent w @ [?get]"
      then show ?thesis by (intro exI [of _ "[?get]"]) simp
    qed
  next
    case (Inr tok)
    from getCSRFTokenForLogin_token [OF g [unfolded Inr]]
    have u: "url_ok w (baseURL c @ loginEndpoint)" and swa: "sent wa = sent w @ [?get]" by simp_all
    from getCSRFTokenForLogin_world [OF g] have uw: "url_ok wa = url_ok w" by simp
    let ?req = "HeaderSet headerReferer (baseURL c @ loginEndpoint)
                 (HeaderSet ''Content-Type'' contentTypeForm
                   \<lparr>Method = MethodPost, URL = baseURL c @ loginEndpoint, Header = [],
                    Payload = FormBody [(''username'', username c), (''password'', password c),
                                         (''csrf_token'', tok)]\<rparr>)"
    have mreq: "Method ?req = MethodPost" by (simp add: HeaderSet_def)
    obtain x wb where d: "Do ?req wa = (x, wb)" by (cases "Do ?req wa")
    from Do_effect [OF d] have swb: "sent wb = sent wa @ [?req]" by simp
    have "snd (snd (Login c w)) = wb"
      using False u uw
      by (simp add: Login_def g Inr NewRequestWithContext_def d Let_def split: sum.splits)
    with assms have "w1 = wb" by simp
    with swa swb have "sent w1 = sent w @ [?get, ?req]" by simp
    then show ?thesis by (intro exI [of _ "[?get, ?req]"]) (simp add: mreq)
  qed
qed

text \<open>
  C4. Let \<open>Login\<close> run on a client that is not logged in. The only field it may change is
  \<open>loggedIn\<close>, which ends up set exactly when no error is returned. No error is returned
  only when the login page and then the response to the login request came back and that
  response is classified as a success by \<open>login_success\<close> and carries no failure marker.
  Whenever the response to the login request carries a failure marker, or is otherwise not
  classified as a success, \<open>Login\<close> returns an error and leaves \<open>loggedIn\<close> unset; a 200 page
  with a failure marker gives the error for wrong credentials. There is no retry:
  \<open>httpClient.Do\<close> is called at most once with a GET and at most once with a POST.
\<close>

theorem Login_outcome:
  assumes out: "\<not> loggedIn c" and run: "Login c w = (err, c1, w1)"
  shows "c1 = c\<lparr>loggedIn := (err = None)\<rparr>
    \<and> (err = None \<longrightarrow>
          (\<exists>page rest resp rest'. follow (url_ok w) 0 (replies w) = (Inr page, rest)
              \<and> follow (url_ok w) 0 rest = (Inr resp, rest')
              \<and> login_success resp \<and> \<not> isLoginError (Body resp)))
    \<and> (\<forall>page rest resp rest'. follow (url_ok w) 0 (replies w) = (Inr page, rest)
          \<and> follow (url_ok w) 0 rest = (Inr resp, rest')
          \<and> (isLoginError (Body resp) \<or> \<not> login_success resp)
          \<longrightarrow> err \<noteq> None \<and> \<not> loggedIn c1)
    \<and> (\<forall>page rest resp rest'. follow (url_ok w) 0 (replies w) = (Inr page, rest)
          \<and> follow (url_ok w) 0 rest = (Inr resp, rest')
          \<and> url_ok w (baseURL c @ loginEndpoint) \<and> \<not> BodyErr page
          \<and> FindStringSubmatch (Body page) \<noteq> []
          \<and> StatusCode resp = 200 \<and> isLoginError (Body resp)
          \<longrightarrow> err = Some ErrBadCredentials)
    \<and> (\<exists>new. sent w1 = sent w @ new
          \<and> length (filter (\<lambda>r. Method r = MethodGet) new) \<le> 1
          \<and> length (filter (\<lambda>r. Method r = MethodPost) new) \<le> 1)"
proof -
  have a: "c\<lparr>loggedIn := False\<rparr> = c" using out by simp
  obtain r wa where g: "getCSRFTokenForLogin c w = (r, wa)"
    by (cases "getCSRFTokenForLogin c w")
  note c5 = Login_sent [OF run]
  have failed: ?thesis if e: "err \<noteq> None" and c: "c1 = c"
    and no: "\<And>page rest resp rest'. follow (url_ok w) 0 (replies w) = (Inr page, rest)
          \<Longrightarrow> follow (url_ok w) 0 rest = (Inr resp, rest')
          \<Longrightarrow> url_ok w (baseURL c @ loginEndpoint) \<Longrightarrow> \<not> BodyErr page
          \<Longrightarrow> FindStringSubmatch (Body page) \<noteq> []
          \<Longrightarrow> StatusCode resp = 200 \<Longrightarrow> isLoginError (Body resp)
          \<Longrightarrow> err = Some ErrBadCredentials"
  proof -
    have ne: "(err = None) = False" using e by simp
    have k1: "c1 = c\<lparr>loggedIn := (err = None)\<rparr>" by (simp add: ne c a)
    have k2: "err = None \<longrightarrow>
          (\<exists>page rest resp rest'. follow (url_ok w) 0 (replies w) = (Inr page, rest)
              \<and> follow (url_ok w) 0 rest = (Inr resp, rest')
              \<and> login_success resp \<and> \<not> isLoginError (Body resp))"
      by (simp add: ne)
    have k3: "\<forall>page rest resp rest'. follow (url_ok w) 0 (replies w) = (Inr page, rest)
          \<and> follow (url_ok w) 0 rest = (Inr resp, rest')
          \<and> (isLoginError (Body resp) \<or> \<not> login_success resp)
          \<longrightarrow> err \<noteq> None \<and> \<not> loggedIn c1"
      using out by (simp add: ne c)
    have k4: "\<forall>page rest resp rest'. follow (url_ok w) 0 (replies w) = (Inr page, rest)
          \<and> follow (url_ok w) 0 rest = (Inr resp, rest')
          \<and> url_ok w (baseURL c @ loginEndpoint) \<and> \<not> BodyErr page
          \<and> FindStringSubmatch (Body page) \<noteq> []
          \<and> StatusCode resp = 200 \<and> isLoginError (Body resp)
          \<longrightarrow> err = Some ErrBadCredentials"
      using no by blast
    from k1 k2 k3 k4 c5 show ?thesis by (intro conjI)
  qed
  show ?thesis
  proof (cases r)
    case (Inl e)
    with out run g have res: "err = Some (ErrGetCSRFToken e)" "c1 = c"
      by (simp_all add: Login_def)
    show ?thesis
    proof (rule failed)
      show "err \<noteq> None" by (simp add: res)
      show "c1 = c" by (rule res)
    next
      fix page rest resp rest'
      assume "follow (url_ok w) 0 (replies w) = (Inr page, rest)"
        and "url_ok w (baseURL c @ loginEndpoint)" and "\<not> BodyErr page"
        and "FindStringSubmatch (Body page) \<noteq> []"
      from getCSRFTokenForLogin_page [OF this(2) this(1) this(3) this(4)] g Inl
      have False by auto
      then show "err = Some ErrBadCredentials" ..
    qed
  next
    case (Inr tok)
    note g' = g [unfolded Inr]
    from getCSRFTokenForLogin_token [OF g'] obtain page m where
      fp: "follow (url_ok w) 0 (replies w) = (Inr page, replies wa)"
      and fs: "FindStringSubmatch (Body page) = [m, tok]"
      and u: "url_ok w (baseURL c @ loginEndpoint)"
      by blast
    from getCSRFTokenForLogin_world [OF g] have uw: "url_ok wa = url_ok w" by simp
    obtain x rest where fx: "follow (url_ok w) 0 (replies wa) = (x, rest)"
      by (cases "follow (url_ok w) 0 (replies wa)")
    show ?thesis
    proof (cases x)
      case (Inl e)
      have "fst (Login c w) = Some (ErrSendRequest e) \<and> fst (snd (Login c w)) = c"
        using out u uw fx Inl
        by (simp add: Login_def g' NewRequestWithContext_def Do_def Let_def)
      with run have res: "err = Some (ErrSendRequest e)" "c1 = c" by simp_all
      show ?thesis
      proof (rule failed)
        show "err \<noteq> None" by (simp add: res)
        show "c1 = c" by (rule res)
      next
        fix p rest1 q rest2
        assume "follow (url_ok w) 0 (replies w) = (Inr p, rest1)"
          and "follow (url_ok w) 0 rest1 = (Inr q, rest2)"
        with fp fx Inl have False by simp
        then show "err = Some ErrBadCredentials" ..
      qed
    next
      case (Inr resp)
      note outcome = Login_classify [OF out g' fx [unfolded Inr] run]
      from follow_effect [OF fx] Inr
      have nored: "\<not> (is_redirect (StatusCode resp) \<and> Location resp \<noteq> [])" by simp
      have noloc: "\<not> ((StatusCode resp = 302 \<or> StatusCode resp = 303)
           \<and> isSuccessfulRedirect (Location resp))"
      proof (cases "Location resp = []")
        case True
        then show ?thesis by (simp add: no_location_no_success)
      next
        case False
        with nored show ?thesis by (simp add: is_redirect_def)
      qed
      have ls: "login_success resp = (StatusCode resp = 200 \<and> isLoginSuccess (Body resp))"
        using noloc by (auto simp: login_success_def)
      have only: "q = resp" if "follow (url_ok w) 0 (replies w) = (Inr p, rest1)"
        and "follow (url_ok w) 0 rest1 = (Inr q, rest2)" for p rest1 q rest2
        using that fp fx Inr by simp
      have k1: "c1 = c\<lparr>loggedIn := (err = None)\<rparr>"
        using outcome by (auto simp: a split: if_splits)
      have good: "login_success resp \<and> \<not> isLoginError (Body resp)" if "err = None"
        using outcome that by (simp add: ls split: if_splits)
      have k2: "err = None \<longrightarrow>
          (\<exists>page rest resp rest'. follow (url_ok w) 0 (replies w) = (Inr page, rest)
              \<and> follow (url_ok w) 0 rest = (Inr resp, rest')
              \<and> login_success resp \<and> \<not> isLoginError (Body resp))"
      proof
        assume "err = None"
        from good [OF this] fp fx [unfolded Inr]
        show "\<exists>page rest resp rest'. follow (url_ok w) 0 (replies w) = (Inr page, rest)
              \<and> follow (url_ok w) 0 rest = (Inr resp, rest')
              \<and> login_success resp \<and> \<not> isLoginError (Body resp)"
          by blast
      qed
      have bad: "err \<noteq> None \<and> \<not> loggedIn c1" if "isLoginError (Body resp) \<or> \<not> login_success resp"
        using outcome that out by (auto simp: ls split: if_splits)
      have k3: "\<forall>page rest q rest'. follow (url_ok w) 0 (replies w) = (Inr page, rest)
          \<and> follow (url_ok w) 0 rest = (Inr q, rest')
          \<and> (isLoginError (Body q) \<or> \<not> login_success q)
          \<longrightarrow> err \<noteq> None \<and> \<not> loggedIn c1"
      proof (intro allI impI, elim conjE)
        fix p rest1 q rest2
        assume f1: "follow (url_ok w) 0 (replies w) = (Inr p, rest1)"
          and f2: "follow (url_ok w) 0 rest1 = (Inr q, rest2)"
          and b: "isLoginError (Body q) \<or> \<not> login_success q"
        from only [OF f1 f2] b have "isLoginError (Body resp) \<or> \<not> login_success resp" by simp
        then show "err \<noteq> None \<and> \<not> loggedIn c1" by (rule bad)
      qed
      have k4: "\<forall>page rest q rest'. follow (url_ok w) 0 (replies w) = (Inr page, rest)
          \<and> follow (url_ok w) 0 rest = (Inr q, rest')
          \<and> url_ok w (baseURL c @ loginEndpoint) \<and> \<not> BodyErr page
          \<and> FindStringSubmatch (Body page) \<noteq> []
          \<and> StatusCode q = 200 \<and> isLoginError (Body q)
          \<longrightarrow> err = Some ErrBadCredentials"
      proof (intro allI impI, elim conjE)
        fix p rest1 q rest2
        assume f1: "follow (url_ok w) 0 (replies w) = (Inr p, rest1)"
          and f2: "follow (url_ok w) 0 rest1 = (Inr q, rest2)"
          and st: "StatusCode q = 200" and mk: "isLoginError (Body q)"
        from only [OF f1 f2] st mk have "StatusCode resp = 200 \<and> isLoginError (Body resp)" by simp
        with outcome show "err = Some ErrBadCredentials" by simp
      qed
      from k1 k2 k3 k4 c5 show ?thesis by (intro conjI)
    qed
  qed
qed

lemma loginPage_token:
  \<open>FindStringSubmatch (Body loginPage) = [''name="csrf_token" type="hidden" value="tok-1"'', ''tok-1'']\<close>
  by (simp add: loginPage_def match_here_def name_attr_def match_value_def value_open_def quote_def)

text \<open>
  Two logins. In the first the reply to the login request is a 200 page with a failure
  marker. In the second it is a 302 with a location and that marker in its body, which \<open>Do\<close>
  follows, and the page it arrives at is the one with the marker. Both give the error for
  wrong credentials, and \<open>loggedIn\<close> stays unset.
\<close>

theorem Login_outcome_witness:
  "\<not> loggedIn client0
   \<and> isLoginError (Body badLogin)
   \<and> fst (Login client0 (worldOf 0 [Inr loginPage, Inr badLogin])) = Some ErrBadCredentials
   \<and> \<not> loggedIn (fst (snd (Login client0 (worldOf 0 [Inr loginPage, Inr badLogin]))))
   \<and> fst (Login client0 (worldOf 0 [Inr loginPage, Inr redirectWithMarker, Inr badLogin]))
       = Some ErrBadCredentials
   \<and> \<not> loggedIn (fst (snd (Login client0 (worldOf 0 [Inr loginPage, Inr redirectWithMarker, Inr badLogin]))))"
proof -
  let ?w = "worldOf 0 [Inr loginPage, Inr badLogin]"
  let ?v = "worldOf 0 [Inr loginPage, Inr redirectWithMarker, Inr badLogin]"
  have h1: "\<not> loggedIn client0"
    by (simp add: client0_def NewClient_def)
  have h2: "Login client0 (worldOf 0 rs) =
      (fst (Login client0 (worldOf 0 rs)), fst (snd (Login client0 (worldOf 0 rs))),
       snd (snd (Login client0 (worldOf 0 rs))))" for rs
    by simp
  have h3: "isLoginError (Body badLogin)"
    by code_simp
  have h4: "StatusCode badLogin = 200" "\<not> BodyErr loginPage" "StatusCode loginPage = 200"
    by (simp_all add: badLogin_def loginPage_def)
  have h5: "url_ok (worldOf 0 rs) = (\<lambda>u. True)" "replies (worldOf 0 rs) = rs" for rs
    by (simp_all add: worldOf_def)
  have h7: "FindStringSubmatch (Body loginPage) \<noteq> []"
    by (simp add: loginPage_token)
  have f1: "follow (\<lambda>u. True) 0 (Inr loginPage # rs) = (Inr loginPage, rs)" for rs
    by (simp add: h4 is_redirect_def)
  have f2: "follow (\<lambda>u. True) 0 [Inr badLogin] = (Inr badLogin, [])"
    by (simp add: h4 is_redirect_def)
  have h8: "StatusCode redirectWithMarker = 302" "Location redirectWithMarker \<noteq> []"
    by (simp_all add: redirectWithMarker_def)
  have f3: "follow (\<lambda>u. True) 0 [Inr redirectWithMarker, Inr badLogin] = (Inr badLogin, [])"
    by (simp add: h4 h8 is_redirect_def)
  have p1: "follow (url_ok ?w) 0 (replies ?w) = (Inr loginPage, [Inr badLogin])
          \<and> follow (url_ok ?w) 0 [Inr badLogin] = (Inr badLogin, [])
          \<and> url_ok ?w (baseURL client0 @ loginEndpoint) \<and> \<not> BodyErr loginPage
          \<and> FindStringSubmatch (Body loginPage) \<noteq> []
          \<and> StatusCode badLogin = 200 \<and> isLoginError (Body badLogin)"
    by (simp add: h5 f1 f2 h4 h7 h3 is_redirect_def)
  have p2: "follow (url_ok ?v) 0 (replies ?v) = (Inr loginPage, [Inr redirectWithMarker, Inr badLogin])
          \<and> follow (url_ok ?v) 0 [Inr redirectWithMarker, Inr badLogin] = (Inr badLogin, [])
          \<and> url_ok ?v (baseURL client0 @ loginEndpoint) \<and> \<not> BodyErr loginPage
          \<and> FindStringSubmatch (Body loginPage) \<noteq> []
          \<and> StatusCode badLogin = 200 \<and> isLoginError (Body badLogin)"
    by (simp add: h5 h4 h7 h3 h8 is_redirect_def)
  note t1 = Login_outcome [OF h1 h2, of "[Inr loginPage, Inr badLogin]"]
  note t2 = Login_outcome [OF h1 h2, of "[Inr loginPage, Inr redirectWithMarker, Inr badLogin]"]
  have a: "fst (Login client0 ?w) = Some ErrBadCredentials"
    by (rule t1 [THEN conjunct2, THEN conjunct2, THEN conjunct2, THEN conjunct1, rule_format, OF p1])
  have b: "\<not> loggedIn (fst (snd (Login client0 ?w)))"
    using t1 [THEN conjunct1] a by simp
  have c: "fst (Login client0 ?v) = Some ErrBadCredentials"
    by (rule t2 [THEN conjunct2, THEN conjunct2, THEN conjunct2, THEN conjunct1, rule_format, OF p2])
  have d: "\<not> loggedIn (fst (snd (Login client0 ?v)))"
    using t2 [THEN conjunct1] c by simp
  show ?thesis using h1 h3 a b c d by blast
qed


lemma Do_world:
  assumes "Do req w = (r, w1)"
  shows "json_of w1 = json_of w \<and> url_ok w1 = url_ok w \<and> suffix (replies w1) (replies w)"
proof -
  from Do_effect [OF assms] have f: "follow (url_ok w) 0 (replies w) = (r, replies w1)"
    and same: "json_of w1 = json_of w" "url_ok w1 = url_ok w"
    by simp_all
  from follow_effect [OF f] same show ?thesis by simp
qed

lemma Do_member:
  assumes "Do req w = (Inr resp, w1)"
  shows "Inr resp \<in> set (replies w)"
proof -
  from Do_effect [OF assms] have "follow (url_ok w) 0 (replies w) = (Inr resp, replies w1)"
    by simp
  from follow_effect [OF this] show ?thesis by simp
qed

lemma cache_valid_world:
  "cache_valid c w = (b, w1) \<Longrightarrow>
     json_of w1 = json_of w \<and> url_ok w1 = url_ok w \<and> suffix (replies w1) (replies w)"
  using cache_valid_effect [of c w b w1] by simp

lemma getCSRFToken_world:
  assumes "getCSRFToken c w = (r, c1, w1)"
  shows "json_of w1 = json_of w \<and> url_ok w1 = url_ok w \<and> suffix (replies w1) (replies w)"
proof -
  obtain b1 wa where cv1: "cache_valid c w = (b1, wa)" by (cases "cache_valid c w")
  obtain b2 wb where cv2: "cache_valid c wa = (b2, wb)" by (cases "cache_valid c wa")
  note ea = cache_valid_effect [OF cv1] and eb = cache_valid_effect [OF cv2]
  have ab: "json_of wb = json_of w \<and> url_ok wb = url_ok w \<and> replies wb = replies w"
    using ea eb by simp
  show ?thesis
  proof (cases "b1 \<or> b2 \<or> \<not> url_ok wb (baseURL c @ loginEndpoint)")
    case True
    with assms cv1 cv2 have "w1 = wa \<or> w1 = wb"
      by (auto simp: getCSRFToken_def NewRequestWithContext_def split: bool.splits)
    with ea ab show ?thesis by auto
  next
    case False
    let ?req = "\<lparr>Method = MethodGet, URL = baseURL c @ loginEndpoint, Header = [], Payload = NoBody\<rparr>"
    obtain x wc where d: "Do ?req wb = (x, wc)" by (cases "Do ?req wb")
    note ed = Do_world [OF d]
    obtain t wd where tn: "TimeNow wc = (t, wd)" by (cases "TimeNow wc")
    note et = TimeNow_effect [OF tn]
    from False assms cv1 cv2 d tn have "w1 = wc \<or> w1 = wd"
      by (auto simp: getCSRFToken_def NewRequestWithContext_def Let_def
          split: bool.splits sum.splits if_splits)
    with ab ed et show ?thesis by auto
  qed
qed

lemma Login_world:
  assumes "Login c w = (e, c1, w1)"
  shows "json_of w1 = json_of w \<and> url_ok w1 = url_ok w \<and> suffix (replies w1) (replies w)"
proof (cases "loggedIn c")
  case True
  with assms show ?thesis by (simp add: Login_def)
next
  case False
  obtain r wa where g: "getCSRFTokenForLogin c w = (r, wa)"
    by (cases "getCSRFTokenForLogin c w")
  note eg = getCSRFTokenForLogin_world [OF g]
  show ?thesis
  proof (cases "\<exists>tok. r = Inr tok \<and> url_ok wa (baseURL c @ loginEndpoint)")
    case False
    with \<open>\<not> loggedIn c\<close> assms g have "w1 = wa"
      by (auto simp: Login_def NewRequestWithContext_def split: sum.splits)
    with eg show ?thesis by simp
  next
    case True
    then obtain tok where r: "r = Inr tok" and u: "url_ok wa (baseURL c @ loginEndpoint)" by blast
    let ?req = "HeaderSet headerReferer (baseURL c @ loginEndpoint)
                 (HeaderSet ''Content-Type'' contentTypeForm
                   \<lparr>Method = MethodPost, URL = baseURL c @ loginEndpoint, Header = [],
                    Payload = FormBody [(''username'', username c), (''password'', password c),
                                         (''csrf_token'', tok)]\<rparr>)"
    obtain x wb where d: "Do ?req wa = (x, wb)" by (cases "Do ?req wa")
    note ed = Do_world [OF d]
    from \<open>\<not> loggedIn c\<close> assms g r u d have "w1 = wb"
      by (auto simp: Login_def NewRequestWithContext_def Let_def split: sum.splits if_splits)
    with eg ed show ?thesis by (auto intro: suffix_order.trans)
  qed
qed

lemma ensureLoggedIn_world:
  "ensureLoggedIn c w = (e, c1, w1) \<Longrightarrow>
     json_of w1 = json_of w \<and> url_ok w1 = url_ok w \<and> suffix (replies w1) (replies w)"
  using Login_world [of c w e c1 w1] by (auto simp: ensureLoggedIn_def split: if_splits)

lemma append_names_eq: "append_names cols columns = columns @ map Name cols"
  by (induction cols arbitrary: columns) simp_all

lemma append_cells_eq:
  "append_cells row cols rowData = rowData @ map (\<lambda>col. row_cell row (Name col)) cols"
  by (induction cols arbitrary: rowData) simp_all

lemma append_rows_eq:
  "append_rows cols rows data = data @ map (\<lambda>row. map (\<lambda>col. row_cell row (Name col)) cols) rows"
  by (induction rows arbitrary: data) (simp_all add: append_cells_eq)

text \<open>
  C6. \<open>ExecuteSQL\<close> is \<open>ExecuteSQLWithSchema\<close> with the empty schema. Whenever
  \<open>ExecuteSQLWithSchema\<close> returns a result, it was built from a reply of the backend that
  decoded into a response \<open>sr\<close>: the column names are the \<open>name\<close>s of the backend's columns in
  the backend's order, there is one row per backend row, every row has exactly as many cells
  as there are column names, and the cell at position \<open>j\<close> of row \<open>i\<close> is what the backend's
  row \<open>i\<close> holds under the \<open>j\<close>-th column name, \<open>JNull\<close> when the row has no such key. Rows
  are maps, so the order of the keys in a row object plays no part.
\<close>

theorem executeSQL_rows_aligned:
  assumes run: "ExecuteSQLWithSchema c w sql databaseID schema = (Inr res, c1, w1)"
  shows "ExecuteSQL c w sql databaseID = ExecuteSQLWithSchema c w sql databaseID []
    \<and> (\<exists>resp sr. Inr resp \<in> set (replies w)
          \<and> Unmarshal w (Body resp) dec_supersetResponse = Some sr
          \<and> Columns res = map Name (respColumns sr)
          \<and> length (Data res) = length (respData sr)
          \<and> (\<forall>i < length (Data res).
                length (Data res ! i) = length (Columns res)
                \<and> (\<forall>j < length (Columns res).
                      Data res ! i ! j = row_cell (respData sr ! i) (Columns res ! j)
                      \<and> ((respData sr ! i) (Columns res ! j) = None \<longrightarrow> Data res ! i ! j = JNull))))"
proof -
  from run have run': "executeSQLInternal c w sql databaseID schema = (Inr res, c1, w1)"
    by (simp add: ExecuteSQLWithSchema_def)
  obtain e ca wa where l: "ensureLoggedIn c w = (e, ca, wa)" by (cases "ensureLoggedIn c w")
  note el = ensureLoggedIn_world [OF l]
  from run' l have e: "e = None"
    by (cases e) (simp_all add: executeSQLInternal_def)
  obtain r cb wb where g: "getCSRFToken ca wa = (r, cb, wb)" by (cases "getCSRFToken ca wa")
  note eg = getCSRFToken_world [OF g]
  from run' l e g obtain tok where r: "r = Inr tok"
    by (cases r) (simp_all add: executeSQLInternal_def)
  let ?req0 = "\<lparr>Method = MethodPost, URL = baseURL cb @ sqlExecuteEndpoint, Header = [],
                 Payload = JSONBody [(''database_id'', JInt databaseID), (''sql'', JString sql),
                                     (''schema'', JString schema)]\<rparr>"
  let ?req = "HeaderSet headerReferer (sqlLabURL cb)
                (HeaderSet headerCSRF tok
                  (HeaderSet headerAccept contentTypeJSON
                    (HeaderSet ''Content-Type'' contentTypeJSON ?req0)))"
  from run' l e g r have u: "url_ok wb (baseURL cb @ sqlExecuteEndpoint)"
    by (auto simp: executeSQLInternal_def NewRequestWithContext_def split: if_splits)
  obtain x wc where d: "Do ?req wb = (x, wc)" by (cases "Do ?req wb")
  note ed = Do_world [OF d]
  have step: "executeSQLInternal c w sql databaseID schema =
     (case x of
        Inl err \<Rightarrow> (Inl (ErrExecuteSQL err), cb, wc)
      | Inr resp \<Rightarrow>
          if BodyErr resp then (Inl ErrReadBody, cb, wc)
          else if StatusCode resp \<noteq> 200 then (Inl (ErrAPIStatus (StatusCode resp) (Body resp)), cb, wc)
          else (case Unmarshal wc (Body resp) dec_supersetResponse of
                  None \<Rightarrow> (Inl (ErrParse (Body resp)), cb, wc)
                | Some supersetResponse \<Rightarrow>
                    (Inr \<lparr>Columns = append_names (respColumns supersetResponse) [],
                          Data = append_rows (respColumns supersetResponse) (respData supersetResponse) [],
                          Query = respQuerySQL supersetResponse,
                          Status = respStatus supersetResponse\<rparr>, cb, wc)))"
    using u by (simp add: executeSQLInternal_def l e g r NewRequestWithContext_def d Let_def)
  from step run' obtain resp sr where x: "x = Inr resp"
    and um: "Unmarshal wc (Body resp) dec_supersetResponse = Some sr"
    and res: "res = \<lparr>Columns = append_names (respColumns sr) [],
                      Data = append_rows (respColumns sr) (respData sr) [],
                      Query = respQuerySQL sr, Status = respStatus sr\<rparr>"
    by (auto split: sum.splits if_splits option.splits)
  from Do_member [OF d [unfolded x]] have "Inr resp \<in> set (replies wb)" .
  with el eg have mem: "Inr resp \<in> set (replies w)"
    by (meson set_mono_suffix subsetD)
  from um ed eg el have um': "Unmarshal w (Body resp) dec_supersetResponse = Some sr"
    by (simp add: Unmarshal_def)
  have cols: "Columns res = map Name (respColumns sr)"
    by (simp add: res append_names_eq)
  have data: "Data res = map (\<lambda>row. map (\<lambda>col. row_cell row (Name col)) (respColumns sr)) (respData sr)"
    by (simp add: res append_rows_eq)
  have aligned: "\<forall>i < length (Data res).
                length (Data res ! i) = length (Columns res)
                \<and> (\<forall>j < length (Columns res).
                      Data res ! i ! j = row_cell (respData sr ! i) (Columns res ! j)
                      \<and> ((respData sr ! i) (Columns res ! j) = None \<longrightarrow> Data res ! i ! j = JNull))"
    by (simp add: cols data row_cell_def)
  have len: "length (Data res) = length (respData sr)"
    by (simp add: data)
  have wrap: "ExecuteSQL c w sql databaseID = ExecuteSQLWithSchema c w sql databaseID []"
    by (simp add: ExecuteSQL_def ExecuteSQLWithSchema_def)
  from wrap mem um' cols len aligned show ?thesis
    by blast
qed

text \<open>
  A reply with the columns \<open>a\<close>, \<open>b\<close> and the rows \<open>{b: 2, a: 1}\<close> and \<open>{a: 3}\<close>.
\<close>

theorem executeSQL_rows_aligned_witness:
  "fst (ExecuteSQLWithSchema readyClient (apiWorld sqlBody) ''SELECT a, b FROM t'' 1 ''public'')
     = Inr exampleResult
   \<and> length (Data exampleResult ! 0) = length (Columns exampleResult)
   \<and> length (Data exampleResult ! 1) = length (Columns exampleResult)
   \<and> Data exampleResult ! 1 ! 1 = JNull"
proof -
  let ?run = "ExecuteSQLWithSchema readyClient (apiWorld sqlBody) ''SELECT a, b FROM t'' 1 ''public''"
  have h1: "fst ?run = Inr exampleResult"
    by code_simp
  have h2: "?run = (Inr exampleResult, fst (snd ?run), snd (snd ?run))"
    using h1 by (metis prod.collapse)
  have h3: "0 < length (Data exampleResult)" "1 < length (Data exampleResult)"
    by (simp_all add: exampleResult_def)
  from executeSQL_rows_aligned [OF h2]
  have "\<forall>i < length (Data exampleResult).
         length (Data exampleResult ! i) = length (Columns exampleResult)"
    by blast
  with h3 have "length (Data exampleResult ! 0) = length (Columns exampleResult)"
    and "length (Data exampleResult ! 1) = length (Columns exampleResult)"
    by blast+
  moreover have "Data exampleResult ! 1 ! 1 = JNull"
    by (simp add: exampleResult_def)
  ultimately show ?thesis using h1 by blast
qed

text \<open>
  C7 as stated fails in its last part: the body is the JSON object
  \<^verbatim>\<open>{"message":"Access is Denied"}\<close>, which is neither an object with a \<open>result\<close> member nor
  an array. The first decode accepts it, and \<open>GetDatabases\<close> returns the empty list and no
  error.
\<close>

theorem GetDatabases_empty_counterexample:
  "json_of (apiWorld deniedBody) deniedBody = Some (JObject [(''message'', JString ''Access is Denied'')])
   \<and> fst (GetDatabases readyClient (apiWorld deniedBody)) = Inr []"
  by code_simp

lemma assign_members_append:
  "assign_members f (xs @ ys) x =
     (case assign_members f xs x of None \<Rightarrow> None | Some y \<Rightarrow> assign_members f ys y)"
  by (induction xs arbitrary: x) (auto split: option.splits)

lemma Result_field_skip:
  "\<forall>kv \<in> set ms. foldName (fst kv) \<noteq> ''RESULT'' \<Longrightarrow> assign_members Result_field ms x = Some x"
  by (induction ms arbitrary: x) (auto simp: Result_field_def)

lemma Result_member:
  assumes "foldName k = ''RESULT''"
    and "\<forall>kv \<in> set (pre @ post). foldName (fst kv) \<noteq> ''RESULT''"
  shows "dec_struct Result_field (JObject (pre @ (k, v) # post)) x = dec_slice dec_Database v"
proof -
  from assms(2) have pre: "assign_members Result_field pre x = Some x"
    and post: "\<And>y. assign_members Result_field post y = Some y"
    by (simp_all add: Result_field_skip)
  show ?thesis
    using assms(1)
    by (cases "dec_slice dec_Database v")
       (simp_all add: dec_struct_def assign_members_append pre post Result_field_def)
qed

text \<open>
  C7, as the code has it. Let \<open>GetDatabases\<close> get as far as a 200 reply whose body was read.
  The result of the first decode, into the struct with the field \<open>Result\<close>, is returned
  whenever that decode succeeds; only when it fails is the body decoded as a slice, and only
  when that fails too is the result the parse error. Hence an object whose one \<open>result\<close>
  member is an array of database objects, and a bare array of database objects, both give
  the list of the decoded databases; a body that is not JSON, or is a JSON string, number or
  boolean, gives the error; and an object without a \<open>result\<close> member, like \<open>null\<close>, is
  accepted by the first decode and gives the empty list.
\<close>

theorem GetDatabases_decoding:
  assumes login: "ensureLoggedIn c w = (None, c1, w1)"
    and tok: "getCSRFToken c1 w1 = (Inr csrfToken, c2, w2)"
    and url: "url_ok w2 (baseURL c2 @ databaseEndpoint)"
    and reply: "replies w2 = Inr resp # rest"
    and body: "\<not> BodyErr resp"
    and status: "StatusCode resp = 200"
  shows
    "(\<forall>result. Unmarshal w2 (Body resp) (\<lambda>j. dec_struct Result_field j []) = Some result
        \<longrightarrow> fst (GetDatabases c w) = Inr result)
   \<and> (Unmarshal w2 (Body resp) (\<lambda>j. dec_struct Result_field j []) = None
        \<longrightarrow> fst (GetDatabases c w) =
              (case Unmarshal w2 (Body resp) (dec_slice dec_Database) of
                 None \<Rightarrow> Inl (ErrParse (Body resp))
               | Some databases \<Rightarrow> Inr databases))
   \<and> (\<forall>pre k xs post dbs.
         json_of w2 (Body resp) = Some (JObject (pre @ (k, JArray xs) # post))
         \<and> foldName k = ''RESULT'' \<and> (\<forall>kv \<in> set (pre @ post). foldName (fst kv) \<noteq> ''RESULT'')
         \<and> those (map dec_Database xs) = Some dbs
        \<longrightarrow> fst (GetDatabases c w) = Inr dbs)
   \<and> (\<forall>xs dbs. json_of w2 (Body resp) = Some (JArray xs) \<and> those (map dec_Database xs) = Some dbs
        \<longrightarrow> fst (GetDatabases c w) = Inr dbs)
   \<and> (json_of w2 (Body resp) = None \<longrightarrow> fst (GetDatabases c w) = Inl (ErrParse (Body resp)))
   \<and> (\<forall>j. json_of w2 (Body resp) = Some j \<and> j \<noteq> JNull \<and> (\<forall>xs. j \<noteq> JArray xs)
            \<and> (\<forall>ms. j \<noteq> JObject ms)
        \<longrightarrow> fst (GetDatabases c w) = Inl (ErrParse (Body resp)))
   \<and> (\<forall>ms. json_of w2 (Body resp) = Some (JObject ms)
            \<and> (\<forall>kv \<in> set ms. foldName (fst kv) \<noteq> ''RESULT'')
        \<longrightarrow> fst (GetDatabases c w) = Inr [])
   \<and> (json_of w2 (Body resp) = Some JNull \<longrightarrow> fst (GetDatabases c w) = Inr [])"
proof -
  let ?req = "HeaderSet headerReferer (sqlLabURL c2)
                (HeaderSet headerCSRF csrfToken
                  (HeaderSet headerAccept contentTypeJSON
                    \<lparr>Method = MethodGet, URL = baseURL c2 @ databaseEndpoint, Header = [],
                     Payload = NoBody\<rparr>))"
  obtain x w3 where d: "Do ?req w2 = (x, w3)" by (cases "Do ?req w2")
  have "follow (url_ok w2) 0 (replies w2) = (Inr resp, rest)"
    by (simp add: reply status is_redirect_def)
  with Do_effect [OF d] have x: "x = Inr resp" and j3: "json_of w3 = json_of w2"
    by simp_all
  let ?env = "Unmarshal w2 (Body resp) (\<lambda>j. dec_struct Result_field j [])"
  let ?arr = "Unmarshal w2 (Body resp) (dec_slice dec_Database)"
  have um: "Unmarshal w3 (Body resp) dec = Unmarshal w2 (Body resp) dec" for dec :: "json \<Rightarrow> Database list option"
    by (simp add: Unmarshal_def j3)
  have main: "fst (GetDatabases c w) =
      (case ?env of Some result \<Rightarrow> Inr result
       | None \<Rightarrow> (case ?arr of None \<Rightarrow> Inl (ErrParse (Body resp)) | Some databases \<Rightarrow> Inr databases))"
    using url body status
    by (simp add: GetDatabases_def login tok NewRequestWithContext_def d x um Let_def
        split: option.splits)
  have c1: "\<forall>result. ?env = Some result \<longrightarrow> fst (GetDatabases c w) = Inr result"
    by (simp add: main)
  have c2: "?env = None \<longrightarrow> fst (GetDatabases c w) =
              (case ?arr of None \<Rightarrow> Inl (ErrParse (Body resp)) | Some databases \<Rightarrow> Inr databases)"
    by (simp add: main)
  have c3: "\<forall>pre k xs post dbs.
         json_of w2 (Body resp) = Some (JObject (pre @ (k, JArray xs) # post))
         \<and> foldName k = ''RESULT'' \<and> (\<forall>kv \<in> set (pre @ post). foldName (fst kv) \<noteq> ''RESULT'')
         \<and> those (map dec_Database xs) = Some dbs
        \<longrightarrow> fst (GetDatabases c w) = Inr dbs"
  proof (intro allI impI, elim conjE)
    fix pre k xs post dbs
    assume j: "json_of w2 (Body resp) = Some (JObject (pre @ (k, JArray xs) # post))"
      and k: "foldName k = ''RESULT''"
      and others: "\<forall>kv \<in> set (pre @ post). foldName (fst kv) \<noteq> ''RESULT''"
      and dbs: "those (map dec_Database xs) = Some dbs"
    have "?env = Some dbs"
      by (simp add: Unmarshal_def j Result_member [OF k others] dec_slice_def dbs)
    then show "fst (GetDatabases c w) = Inr dbs" by (simp add: main)
  qed
  have c4: "\<forall>xs dbs. json_of w2 (Body resp) = Some (JArray xs) \<and> those (map dec_Database xs) = Some dbs
        \<longrightarrow> fst (GetDatabases c w) = Inr dbs"
    by (simp add: main Unmarshal_def dec_struct_def dec_slice_def)
  have c5: "json_of w2 (Body resp) = None \<longrightarrow> fst (GetDatabases c w) = Inl (ErrParse (Body resp))"
    by (simp add: main Unmarshal_def)
  have c6: "\<forall>j. json_of w2 (Body resp) = Some j \<and> j \<noteq> JNull \<and> (\<forall>xs. j \<noteq> JArray xs)
            \<and> (\<forall>ms. j \<noteq> JObject ms)
        \<longrightarrow> fst (GetDatabases c w) = Inl (ErrParse (Body resp))"
  proof (intro allI impI, elim conjE)
    fix j
    assume "json_of w2 (Body resp) = Some j" "j \<noteq> JNull" "\<forall>xs. j \<noteq> JArray xs" "\<forall>ms. j \<noteq> JObject ms"
    then show "fst (GetDatabases c w) = Inl (ErrParse (Body resp))"
      by (cases j) (simp_all add: main Unmarshal_def dec_struct_def dec_slice_def)
  qed
  have c7: "\<forall>ms. json_of w2 (Body resp) = Some (JObject ms)
            \<and> (\<forall>kv \<in> set ms. foldName (fst kv) \<noteq> ''RESULT'')
        \<longrightarrow> fst (GetDatabases c w) = Inr []"
    by (simp add: main Unmarshal_def dec_struct_def Result_field_skip)
  have c8: "json_of w2 (Body resp) = Some JNull \<longrightarrow> fst (GetDatabases c w) = Inr []"
    by (simp add: main Unmarshal_def dec_struct_def)
  from c1 c2 c3 c4 c5 c6 c7 c8 show ?thesis by blast
qed

lemma ready_token:
  "getCSRFToken readyClient (apiWorld body) =
     (Inr ''tok-1'', readyClient, snd (snd (getCSRFToken readyClient (apiWorld body))))"
  by (simp add: getCSRFToken_def cache_valid_def TimeNow_def readyClient_def apiWorld_def worldOf_def)

lemma ready_world:
  "replies (snd (snd (getCSRFToken readyClient (apiWorld body))))
     = Inr \<lparr>StatusCode = 200, Location = [], Body = body, BodyErr = False\<rparr> # []
   \<and> url_ok (snd (snd (getCSRFToken readyClient (apiWorld body)))) u
   \<and> json_of (snd (snd (getCSRFToken readyClient (apiWorld body)))) = exampleJSON"
  by (simp add: getCSRFToken_def cache_valid_def TimeNow_def readyClient_def apiWorld_def worldOf_def)

lemma ready_login:
  "ensureLoggedIn readyClient (apiWorld body) = (None, readyClient, apiWorld body)"
  by (simp add: ensureLoggedIn_def readyClient_def)

text \<open>
  The envelope shape, the bare array and a body that is not JSON, for a client that is
  logged in and holds a valid token.
\<close>

theorem GetDatabases_decoding_witness:
  "fst (GetDatabases readyClient (apiWorld envelopeBody)) = Inr [examplesDatabase]
   \<and> fst (GetDatabases readyClient (apiWorld arrayBody)) = Inr [examplesDatabase]
   \<and> fst (GetDatabases readyClient (apiWorld ''<html>'')) = Inl (ErrParse ''<html>'')"
proof -
  let ?w2 = "\<lambda>body. snd (snd (getCSRFToken readyClient (apiWorld body)))"
  let ?resp = "\<lambda>body. \<lparr>StatusCode = 200, Location = [], Body = body, BodyErr = False\<rparr>"
  have e1: "Unmarshal (?w2 envelopeBody) (Body (?resp envelopeBody)) (\<lambda>j. dec_struct Result_field j [])
              = Some [examplesDatabase]"
    by code_simp
  have a1: "Unmarshal (?w2 arrayBody) (Body (?resp arrayBody)) (\<lambda>j. dec_struct Result_field j []) = None"
    by code_simp
  have a2: "Unmarshal (?w2 arrayBody) arrayBody (dec_slice dec_Database) = Some [examplesDatabase]"
    by code_simp
  have h1: "json_of (?w2 ''<html>'') (Body (?resp ''<html>'')) = None"
    by code_simp
  have ok: "\<not> BodyErr (?resp body)" "StatusCode (?resp body) = 200" for body
    by simp_all
  have a: "fst (GetDatabases readyClient (apiWorld envelopeBody)) = Inr [examplesDatabase]"
    using GetDatabases_decoding [OF ready_login ready_token
        ready_world [THEN conjunct2, THEN conjunct1] ready_world [THEN conjunct1] ok,
        THEN conjunct1, rule_format, OF e1] .
  have b: "fst (GetDatabases readyClient (apiWorld arrayBody)) = Inr [examplesDatabase]"
    using GetDatabases_decoding [OF ready_login ready_token
        ready_world [THEN conjunct2, THEN conjunct1] ready_world [THEN conjunct1] ok,
        THEN conjunct2, THEN conjunct1, rule_format, OF a1]
    by (simp add: a2)
  have c: "fst (GetDatabases readyClient (apiWorld ''<html>'')) = Inl (ErrParse ''<html>'')"
    using GetDatabases_decoding [OF ready_login ready_token
        ready_world [THEN conjunct2, THEN conjunct1] ready_world [THEN conjunct1] ok,
        THEN conjunct2, THEN conjunct2, THEN conjunct2, THEN conjunct2, THEN conjunct1, rule_format, OF h1]
    by simp
  from a b c show ?thesis by blast
qed

end
